theory Spec2Isabelle
  imports Complex_Main "HOL-Library.Sublist"
begin

section \<open>Crown-boundary ingestion: the shapefile loader\<close>

text \<open>
  A shallow embedding of \<^verbatim>\<open>src/lib/utils/shapefileLoader.ts\<close>.
\<close>

subsection \<open>Numbers\<close>

text \<open>
  A TypeScript \<^verbatim>\<open>number\<close> is an IEEE 754 binary64 value: a finite number,
  \<^verbatim>\<open>Infinity\<close>, \<^verbatim>\<open>-Infinity\<close> or \<^verbatim>\<open>NaN\<close>. The model keeps the four kinds apart and
  computes as binary64 does, with three idealisations.
  \<^item> A finite result is the exact real result: there is no rounding, and no underflow.
  \<^item> Overflow is kept: a result whose magnitude reaches \<open>2\<^sup>1\<^sup>0\<^sup>2\<^sup>4 - 2\<^sup>9\<^sup>7\<^sup>0\<close>, the least
    magnitude that binary64 rounds to an infinity, is the infinity of its sign. A finite
    binary64 number has a magnitude below this threshold.
  \<^item> The two zeros are one number. Only a division by zero tells them apart, and that is
    why \<open>num_div\<close> returns \<open>None\<close> for a zero divisor in place of a number.
\<close>

datatype jsnum = Fin real | PosInf | NegInf | NaN

definition overflow_threshold :: real where
  "overflow_threshold = 2 ^ 1024 - 2 ^ 970"

definition round_overflow :: "real \<Rightarrow> jsnum" where
  "round_overflow r =
     (if overflow_threshold \<le> r then PosInf
      else if r \<le> - overflow_threshold then NegInf
      else Fin r)"

fun num_neg :: "jsnum \<Rightarrow> jsnum" where
  "num_neg (Fin a) = Fin (- a)"
| "num_neg PosInf = NegInf"
| "num_neg NegInf = PosInf"
| "num_neg NaN = NaN"

text \<open>Addition: \<^verbatim>\<open>Infinity + -Infinity\<close> is \<^verbatim>\<open>NaN\<close>.\<close>

fun num_add :: "jsnum \<Rightarrow> jsnum \<Rightarrow> jsnum" where
  "num_add NaN b = NaN"
| "num_add a NaN = NaN"
| "num_add (Fin a) (Fin b) = round_overflow (a + b)"
| "num_add (Fin a) b = b"
| "num_add a (Fin b) = a"
| "num_add PosInf PosInf = PosInf"
| "num_add NegInf NegInf = NegInf"
| "num_add PosInf NegInf = NaN"
| "num_add NegInf PosInf = NaN"

definition num_sub :: "jsnum \<Rightarrow> jsnum \<Rightarrow> jsnum" where
  "num_sub a b = num_add a (num_neg b)"

text \<open>Multiplication: zero times an infinity is \<^verbatim>\<open>NaN\<close>.\<close>

fun num_mul :: "jsnum \<Rightarrow> jsnum \<Rightarrow> jsnum" where
  "num_mul NaN b = NaN"
| "num_mul a NaN = NaN"
| "num_mul (Fin a) (Fin b) = round_overflow (a * b)"
| "num_mul (Fin a) b = (if a = 0 then NaN else if 0 < a then b else num_neg b)"
| "num_mul a (Fin b) = (if b = 0 then NaN else if 0 < b then a else num_neg a)"
| "num_mul PosInf b = b"
| "num_mul NegInf b = num_neg b"

text \<open>
  Division: a finite number by an infinity is zero, an infinity by an infinity is
  \<^verbatim>\<open>NaN\<close>; \<open>None\<close> for a zero divisor.
\<close>

fun num_div :: "jsnum \<Rightarrow> jsnum \<Rightarrow> jsnum option" where
  "num_div a (Fin b) =
     (if b = 0 then None
      else Some (case a of
                   Fin x \<Rightarrow> round_overflow (x / b)
                 | PosInf \<Rightarrow> (if 0 < b then PosInf else NegInf)
                 | NegInf \<Rightarrow> (if 0 < b then NegInf else PosInf)
                 | NaN \<Rightarrow> NaN))"
| "num_div a NaN = Some NaN"
| "num_div (Fin x) b = Some (Fin 0)"
| "num_div a b = Some NaN"

text \<open>Comparison: every comparison with \<^verbatim>\<open>NaN\<close> is false.\<close>

fun num_le :: "jsnum \<Rightarrow> jsnum \<Rightarrow> bool" where
  "num_le NaN b = False"
| "num_le a NaN = False"
| "num_le (Fin a) (Fin b) = (a \<le> b)"
| "num_le NegInf b = True"
| "num_le a PosInf = True"
| "num_le a b = False"

definition num_ge :: "jsnum \<Rightarrow> jsnum \<Rightarrow> bool" where
  "num_ge a b = num_le b a"

text \<open>
  Points. A coordinate is the two-element array \<^verbatim>\<open>[x, y]\<close> that every function of
  the module destructures; it is a pair.
\<close>

type_synonym point = "jsnum \<times> jsnum"
type_synonym ring = "point list"

record Bounds =
  minX :: jsnum
  minY :: jsnum
  maxX :: jsnum
  maxY :: jsnum

datatype error =
    NetworkError        \<comment> \<open>\<^verbatim>\<open>fetch\<close> rejected\<close>
  | HttpError nat       \<comment> \<open>\<^verbatim>\<open>throw new Error(`Failed to load shapefile: ${status}`)\<close>\<close>
  | BufferError         \<comment> \<open>\<^verbatim>\<open>arrayBuffer()\<close> rejected\<close>
  | ParseError          \<comment> \<open>\<^verbatim>\<open>shapefile.read\<close> rejected\<close>
  | DivisionByZero      \<comment> \<open>a zero divisor in the clipper's interpolation\<close>

subsection \<open>The rectangle clipper\<close>

text \<open>
  The four \<^verbatim>\<open>inside\<close> predicates and the four \<^verbatim>\<open>intersect\<close> functions that
  \<^verbatim>\<open>clipPolygonToBounds\<close> passes to \<^verbatim>\<open>clipEdge\<close>, in the order left, right, bottom, top.
  An \<^verbatim>\<open>intersect\<close> that divides by zero yields \<open>Inl DivisionByZero\<close>; every other
  outcome, with coordinates that are infinite or \<^verbatim>\<open>NaN\<close> after an overflow, is a point.
\<close>

definition inside_left :: "Bounds \<Rightarrow> point \<Rightarrow> bool" where
  "inside_left bounds = (\<lambda>(x, y). num_ge x (minX bounds))"

definition inside_right :: "Bounds \<Rightarrow> point \<Rightarrow> bool" where
  "inside_right bounds = (\<lambda>(x, y). num_le x (maxX bounds))"

definition inside_bottom :: "Bounds \<Rightarrow> point \<Rightarrow> bool" where
  "inside_bottom bounds = (\<lambda>(x, y). num_ge y (minY bounds))"

definition inside_top :: "Bounds \<Rightarrow> point \<Rightarrow> bool" where
  "inside_top bounds = (\<lambda>(x, y). num_le y (maxY bounds))"

definition intersect_left :: "Bounds \<Rightarrow> point \<Rightarrow> point \<Rightarrow> error + point" where
  "intersect_left bounds = (\<lambda>(x1, y1) (x2, y2).
     case num_div (num_sub (minX bounds) x1) (num_sub x2 x1) of
       None \<Rightarrow> Inl DivisionByZero
     | Some t \<Rightarrow> Inr (minX bounds, num_add y1 (num_mul t (num_sub y2 y1))))"

definition intersect_right :: "Bounds \<Rightarrow> point \<Rightarrow> point \<Rightarrow> error + point" where
  "intersect_right bounds = (\<lambda>(x1, y1) (x2, y2).
     case num_div (num_sub (maxX bounds) x1) (num_sub x2 x1) of
       None \<Rightarrow> Inl DivisionByZero
     | Some t \<Rightarrow> Inr (maxX bounds, num_add y1 (num_mul t (num_sub y2 y1))))"

definition intersect_bottom :: "Bounds \<Rightarrow> point \<Rightarrow> point \<Rightarrow> error + point" where
  "intersect_bottom bounds = (\<lambda>(x1, y1) (x2, y2).
     case num_div (num_sub (minY bounds) y1) (num_sub y2 y1) of
       None \<Rightarrow> Inl DivisionByZero
     | Some t \<Rightarrow> Inr (num_add x1 (num_mul t (num_sub x2 x1)), minY bounds))"

definition intersect_top :: "Bounds \<Rightarrow> point \<Rightarrow> point \<Rightarrow> error + point" where
  "intersect_top bounds = (\<lambda>(x1, y1) (x2, y2).
     case num_div (num_sub (maxY bounds) y1) (num_sub y2 y1) of
       None \<Rightarrow> Inl DivisionByZero
     | Some t \<Rightarrow> Inr (num_add x1 (num_mul t (num_sub x2 x1)), maxY bounds))"

text \<open>
  The \<^verbatim>\<open>for (const curr of polygon)\<close> loop of \<^verbatim>\<open>clipEdge\<close>: the loop state is
  \<^verbatim>\<open>prev\<close>, \<^verbatim>\<open>prevInside\<close> and the \<^verbatim>\<open>output\<close> array, to which the body pushes.
\<close>

fun clipEdge_loop ::
  "(point \<Rightarrow> bool) \<Rightarrow> (point \<Rightarrow> point \<Rightarrow> error + point) \<Rightarrow>
   point \<Rightarrow> bool \<Rightarrow> ring \<Rightarrow> ring \<Rightarrow> error + ring" where
  "clipEdge_loop inside intersect prev prevInside [] output = Inr output"
| "clipEdge_loop inside intersect prev prevInside (curr_pt # rest) output =
     (let currInside = inside curr_pt in
      if currInside then
        (if \<not> prevInside then
           (case intersect prev curr_pt of
              Inl e \<Rightarrow> Inl e
            | Inr p \<Rightarrow> clipEdge_loop inside intersect curr_pt currInside rest (output @ [p] @ [curr_pt]))
         else clipEdge_loop inside intersect curr_pt currInside rest (output @ [curr_pt]))
      else if prevInside then
        (case intersect prev curr_pt of
           Inl e \<Rightarrow> Inl e
         | Inr p \<Rightarrow> clipEdge_loop inside intersect curr_pt currInside rest (output @ [p]))
      else clipEdge_loop inside intersect curr_pt currInside rest output)"

definition clipEdge ::
  "ring \<Rightarrow> (point \<Rightarrow> bool) \<Rightarrow> (point \<Rightarrow> point \<Rightarrow> error + point) \<Rightarrow> error + ring" where
  "clipEdge polygon inside intersect =
     (if length polygon = 0 then Inr []
      else let prev = last polygon; prevInside = inside prev
           in clipEdge_loop inside intersect prev prevInside polygon [])"

definition clipPolygonToBounds :: "ring \<Rightarrow> Bounds \<Rightarrow> error + ring" where
  "clipPolygonToBounds polygon bounds =
     (case clipEdge polygon (inside_left bounds) (intersect_left bounds) of
        Inl e \<Rightarrow> Inl e
      | Inr output1 \<Rightarrow>
     (case clipEdge output1 (inside_right bounds) (intersect_right bounds) of
        Inl e \<Rightarrow> Inl e
      | Inr output2 \<Rightarrow>
     (case clipEdge output2 (inside_bottom bounds) (intersect_bottom bounds) of
        Inl e \<Rightarrow> Inl e
      | Inr output3 \<Rightarrow>
        clipEdge output3 (inside_top bounds) (intersect_top bounds))))"

text \<open>
  The arguments of the calls \<^verbatim>\<open>intersect(prev, curr)\<close> that the loop of \<^verbatim>\<open>clipEdge\<close>
  makes, in order: the same walk over the ring with the same two tests, recording the
  call in place of pushing its result.
\<close>

fun intersect_calls_loop ::
  "(point \<Rightarrow> bool) \<Rightarrow> point \<Rightarrow> bool \<Rightarrow> ring \<Rightarrow> (point \<times> point) list" where
  "intersect_calls_loop inside prev prevInside [] = []"
| "intersect_calls_loop inside prev prevInside (curr_pt # rest) =
     (let currInside = inside curr_pt in
      if currInside then
        (if \<not> prevInside then (prev, curr_pt) # intersect_calls_loop inside curr_pt currInside rest
         else intersect_calls_loop inside curr_pt currInside rest)
      else if prevInside then (prev, curr_pt) # intersect_calls_loop inside curr_pt currInside rest
      else intersect_calls_loop inside curr_pt currInside rest)"

definition intersect_calls :: "ring \<Rightarrow> (point \<Rightarrow> bool) \<Rightarrow> (point \<times> point) list" where
  "intersect_calls polygon inside =
     (if length polygon = 0 then []
      else intersect_calls_loop inside (last polygon) (inside (last polygon)) polygon)"

definition in_bounds :: "Bounds \<Rightarrow> point \<Rightarrow> bool" where
  "in_bounds bounds = (\<lambda>(x, y).
     num_le (minX bounds) x \<and> num_le x (maxX bounds) \<and>
     num_le (minY bounds) y \<and> num_le y (maxY bounds))"

text \<open>
  Rings and bounds of finite numbers, and the condition under which no subtraction of
  the clipper overflows: the x coordinates of the ring and of the bounds lie in an
  interval \<open>[lo, hi]\<close> of finite numbers that is shorter than the overflow threshold, and
  so do the y coordinates.
\<close>

definition fin_ring :: "(real \<times> real) list \<Rightarrow> ring" where
  "fin_ring ps = map (\<lambda>(x, y). (Fin x, Fin y)) ps"






subsection \<open>The coordinate projector\<close>

text \<open>
  The projector is modelled on finite coordinates, bounds and image sizes, with exact
  real arithmetic. The result of \<^verbatim>\<open>projectToPixels\<close> keeps the shape of its input
  whatever the bounds are; with degenerate bounds its numbers are \<^verbatim>\<open>Infinity\<close> or
  \<^verbatim>\<open>NaN\<close>. An output number is therefore a \<^typ>\<open>real option\<close>, \<open>None\<close> standing for
  a non-finite number (a non-finite number times the finite image size is again not
  finite). \<^verbatim>\<open>imageBounds\<close> is \<^verbatim>\<open>[[minLat, minLon], [maxLat, maxLon]]\<close>.
\<close>

definition js_div :: "real \<Rightarrow> real \<Rightarrow> real option" where
  "js_div a b = (if b = 0 then None else Some (a / b))"

definition js_mul :: "real option \<Rightarrow> real \<Rightarrow> real option" where
  "js_mul a b = (case a of None \<Rightarrow> None | Some v \<Rightarrow> Some (v * b))"

definition projectToPixels ::
  "(real \<times> real) list list \<Rightarrow> (real \<times> real) \<times> (real \<times> real) \<Rightarrow> real \<Rightarrow> real \<Rightarrow>
   (real option \<times> real option) list list" where
  "projectToPixels coords imageBounds imageWidth imageHeight =
     (case imageBounds of (southWest, northEast) \<Rightarrow>
     (case southWest of (minLat, minLon) \<Rightarrow>
     (case northEast of (maxLat, maxLon) \<Rightarrow>
        map (\<lambda>ring.
          map (\<lambda>(x, y).
            (js_mul (js_div (x - minLon) (maxLon - minLon)) imageWidth,
             js_mul (js_div (maxLat - y) (maxLat - minLat)) imageHeight)) ring) coords)))"

subsection \<open>The loader\<close>

text \<open>
  \<^verbatim>\<open>String.prototype.replace\<close> with a string pattern: the first occurrence of the
  pattern, scanning from the left, is replaced; a string without the pattern is returned
  as it is. The replacement \<^verbatim>\<open>'.dbf'\<close> has no \<^verbatim>\<open>$\<close> pattern, so it is inserted as it
  is. The function is written for lists of any element type: the pattern \<^verbatim>\<open>'.shp'\<close> is
  ASCII, and its occurrences are the same in the code units of the source string and in
  the bytes of a \<^typ>\<open>string\<close>.
\<close>

fun replace_first :: "'a list \<Rightarrow> 'a list \<Rightarrow> 'a list \<Rightarrow> 'a list" where
  "replace_first pat rep [] = (if pat = [] then rep else [])"
| "replace_first pat rep (c # cs) =
     (if prefix pat (c # cs) then rep @ drop (length pat) (c # cs)
      else c # replace_first pat rep cs)"

text \<open>
  The world outside the module is a parameter of the model: \<^verbatim>\<open>fetch\<close> maps a path to a
  rejection or a response, and \<^verbatim>\<open>shapefile.read\<close> (the external decoder) maps a geometry
  buffer and an optional attribute buffer to a rejection or the features of the
  collection. The outcome of a promise is a value of \<open>error + 'a\<close>: \<open>Inl\<close> is a
  rejection, \<open>Inr\<close> a fulfilment.
\<close>

type_synonym bytes = "nat list"

record Response =
  ok :: bool
  status :: nat
  arrayBuffer :: "error + bytes"

datatype geometry = Polygon "ring list" | OtherGeometry string

record 'v Feature =
  geometry :: "geometry option"
  feature_properties :: "(string \<rightharpoonup> 'v) option"

record 'v CrownPolygon =
  type_tag :: string
  coordinates :: "ring list"
  properties :: "string \<rightharpoonup> 'v"

record 'v Env =
  fetch :: "string \<Rightarrow> error + Response"
  shapefile_read :: "bytes \<Rightarrow> bytes option \<Rightarrow> error + 'v Feature list"

text \<open>
  \<^verbatim>\<open>coordinates.map(ring => clipPolygonToBounds(ring, bounds))\<close>, in ring order. The
  outcome \<open>Inl DivisionByZero\<close> of a clip is passed on; no ring reaches it (lemma
  \<open>clipPolygonToBounds_total\<close> below).
\<close>

fun clip_rings :: "ring list \<Rightarrow> Bounds \<Rightarrow> error + ring list" where
  "clip_rings [] bounds = Inr []"
| "clip_rings (ring # rest) bounds =
     (case clipPolygonToBounds ring bounds of
        Inl e \<Rightarrow> Inl e
      | Inr clipped \<Rightarrow>
          (case clip_rings rest bounds of
             Inl e \<Rightarrow> Inl e
           | Inr clipped_rest \<Rightarrow> Inr (clipped # clipped_rest)))"

text \<open>
  The \<^verbatim>\<open>collection.features.forEach\<close> of \<^verbatim>\<open>loadCrownShapefile\<close>, pushing to
  \<^verbatim>\<open>crowns\<close>; \<^verbatim>\<open>feature.properties || {}\<close> is the attribute record or the empty one.
\<close>

fun forEach_feature ::
  "Bounds \<Rightarrow> 'v Feature list \<Rightarrow> 'v CrownPolygon list \<Rightarrow> error + 'v CrownPolygon list" where
  "forEach_feature bounds [] crowns = Inr crowns"
| "forEach_feature bounds (feature # rest) crowns =
     (case geometry feature of
        Some (Polygon rings) \<Rightarrow>
          (case clip_rings rings bounds of
             Inl e \<Rightarrow> Inl e
           | Inr clipped \<Rightarrow>
               (let croppedCoords = filter (\<lambda>ring. length ring > 2) clipped in
                if length croppedCoords > 0 then
                  forEach_feature bounds rest
                    (crowns @ [\<lparr>type_tag = ''Polygon'', coordinates = croppedCoords,
                       properties = (case feature_properties feature of
                                       None \<Rightarrow> Map.empty | Some props \<Rightarrow> props)\<rparr>])
                else forEach_feature bounds rest crowns))
      | _ \<Rightarrow> forEach_feature bounds rest crowns)"

text \<open>The \<^verbatim>\<open>forEach\<close> of \<^verbatim>\<open>loadGeometryOnly\<close>: the same, with \<^verbatim>\<open>properties: {}\<close>.\<close>

fun forEach_feature_geometry_only ::
  "Bounds \<Rightarrow> 'v Feature list \<Rightarrow> 'v CrownPolygon list \<Rightarrow> error + 'v CrownPolygon list" where
  "forEach_feature_geometry_only bounds [] crowns = Inr crowns"
| "forEach_feature_geometry_only bounds (feature # rest) crowns =
     (case geometry feature of
        Some (Polygon rings) \<Rightarrow>
          (case clip_rings rings bounds of
             Inl e \<Rightarrow> Inl e
           | Inr clipped \<Rightarrow>
               (let croppedCoords = filter (\<lambda>ring. length ring > 2) clipped in
                if length croppedCoords > 0 then
                  forEach_feature_geometry_only bounds rest
                    (crowns @ [\<lparr>type_tag = ''Polygon'', coordinates = croppedCoords,
                       properties = Map.empty\<rparr>])
                else forEach_feature_geometry_only bounds rest crowns))
      | _ \<Rightarrow> forEach_feature_geometry_only bounds rest crowns)"

definition loadGeometryOnly ::
  "'v Env \<Rightarrow> bytes \<Rightarrow> Bounds \<Rightarrow> error + 'v CrownPolygon list" where
  "loadGeometryOnly env shpBuffer bounds =
     (case shapefile_read env shpBuffer None of
        Inl e \<Rightarrow> Inl e
      | Inr features \<Rightarrow> forEach_feature_geometry_only bounds features [])"

text \<open>
  How control leaves the \<^verbatim>\<open>try\<close> block of \<^verbatim>\<open>loadCrownShapefile\<close>. An exception, or
  the rejection of an awaited promise, is \<open>Thrown\<close> and goes to the \<^verbatim>\<open>catch\<close> clause.
  \<^verbatim>\<open>return crowns\<close> is \<open>Returned\<close>. \<^verbatim>\<open>return loadGeometryOnly(...)\<close> returns a promise
  that is not awaited: the block is left normally, and the promise of the async function
  then settles as the returned promise does, so a rejection of it is outside the reach of
  the \<^verbatim>\<open>catch\<close> clause; this is \<open>ReturnedPromise\<close> with the outcome of that promise.
\<close>

datatype 'a try_result =
    Thrown error
  | Returned 'a
  | ReturnedPromise "error + 'a"

definition try_block :: "'v Env \<Rightarrow> string \<Rightarrow> Bounds \<Rightarrow> 'v CrownPolygon list try_result" where
  "try_block env shapefilePath bounds =
     (let shpPath = shapefilePath;
          dbfPath = replace_first ''.shp'' ''.dbf'' shapefilePath
      in
      (case fetch env shpPath of
         Inl e \<Rightarrow> Thrown e
       | Inr shpResponse \<Rightarrow>
      (case fetch env dbfPath of
         Inl e \<Rightarrow> Thrown e
       | Inr dbfResponse \<Rightarrow>
      if \<not> ok shpResponse then Thrown (HttpError (status shpResponse))
      else if \<not> ok dbfResponse then
        (case arrayBuffer shpResponse of
           Inl e \<Rightarrow> Thrown e
         | Inr shpBuffer \<Rightarrow> ReturnedPromise (loadGeometryOnly env shpBuffer bounds))
      else
        (case arrayBuffer shpResponse of
           Inl e \<Rightarrow> Thrown e
         | Inr shpBuffer \<Rightarrow>
        (case arrayBuffer dbfResponse of
           Inl e \<Rightarrow> Thrown e
         | Inr dbfBuffer \<Rightarrow>
        (case shapefile_read env shpBuffer (Some dbfBuffer) of
           Inl e \<Rightarrow> Thrown e
         | Inr features \<Rightarrow>
        (case forEach_feature bounds features [] of
           Inl e \<Rightarrow> Thrown e
         | Inr crowns \<Rightarrow> Returned crowns)))))))"

text \<open>
  \<^verbatim>\<open>loadCrownShapefile\<close>: the outcome of the promise the caller receives. The
  \<^verbatim>\<open>catch\<close> clause returns \<^verbatim>\<open>[]\<close>.
\<close>

definition loadCrownShapefile ::
  "'v Env \<Rightarrow> string \<Rightarrow> Bounds \<Rightarrow> error + 'v CrownPolygon list" where
  "loadCrownShapefile env shapefilePath bounds =
     (case try_block env shapefilePath bounds of
        Thrown e \<Rightarrow> Inr []
      | Returned crowns \<Rightarrow> Inr crowns
      | ReturnedPromise promise \<Rightarrow> promise)"

subsection \<open>Concrete inputs\<close>

text \<open>
  The bounds of the specification's scenarios, a small feature collection and six
  environments, used to evaluate the model at concrete inputs. The collection holds a
  polygon with one ring that crosses the lower left corner of the bounds and one ring
  outside them, a point, and a polygon that lies outside the bounds.
\<close>

definition demo_bounds :: Bounds where
  "demo_bounds = \<lparr>minX = Fin 0, minY = Fin 0, maxX = Fin 5, maxY = Fin 5\<rparr>"

definition demo_features :: "string Feature list" where
  "demo_features =
     [\<lparr>geometry = Some (Polygon [fin_ring [(-1, -1), (-1, 1), (1, 1), (1, -1)],
                                  fin_ring [(7, 7), (7, 8), (8, 8)]]),
       feature_properties = Some [''species'' \<mapsto> ''oak'']\<rparr>,
      \<lparr>geometry = Some (OtherGeometry ''Point''), feature_properties = None\<rparr>,
      \<lparr>geometry = Some (Polygon [fin_ring [(6, 6), (6, 7), (7, 7)]]),
       feature_properties = Some [''species'' \<mapsto> ''ash'']\<rparr>]"

definition response_ok :: "bytes \<Rightarrow> Response" where
  "response_ok body = \<lparr>ok = True, status = 200, arrayBuffer = Inr body\<rparr>"

definition response_not_found :: Response where
  "response_not_found = \<lparr>ok = False, status = 404, arrayBuffer = Inr []\<rparr>"

text \<open>Both resources are served and decode.\<close>

definition env_complete :: "string Env" where
  "env_complete =
     \<lparr>fetch = (\<lambda>path. if path = ''/crown_outlines.shp'' then Inr (response_ok [1])
                      else if path = ''/crown_outlines.dbf'' then Inr (response_ok [2])
                      else Inr response_not_found),
      shapefile_read = (\<lambda>shp dbf. Inr demo_features)\<rparr>"

text \<open>The attribute resource answers 404; the geometry decodes.\<close>

definition env_missing_dbf :: "string Env" where
  "env_missing_dbf =
     \<lparr>fetch = (\<lambda>path. if path = ''/crown_outlines.shp'' then Inr (response_ok [1])
                      else Inr response_not_found),
      shapefile_read = (\<lambda>shp dbf. Inr demo_features)\<rparr>"

text \<open>
  Both resources are served; the decoder rejects the attribute buffer and decodes the
  geometry buffer when it is given alone.
\<close>

definition env_corrupt_dbf :: "string Env" where
  "env_corrupt_dbf =
     \<lparr>fetch = (\<lambda>path. if path = ''/crown_outlines.shp'' then Inr (response_ok [1])
                      else if path = ''/crown_outlines.dbf'' then Inr (response_ok [2])
                      else Inr response_not_found),
      shapefile_read = (\<lambda>shp dbf. case dbf of None \<Rightarrow> Inr demo_features
                                             | Some d \<Rightarrow> Inl ParseError)\<rparr>"

text \<open>The attribute resource answers 404 and the decoder rejects the geometry buffer.\<close>

definition env_corrupt_shp :: "string Env" where
  "env_corrupt_shp =
     \<lparr>fetch = (\<lambda>path. if path = ''/crown_outlines.shp'' then Inr (response_ok [1])
                      else Inr response_not_found),
      shapefile_read = (\<lambda>shp dbf. Inl ParseError)\<rparr>"

text \<open>The attribute request is rejected (the resource is unreachable); the geometry decodes.\<close>

definition env_unreachable_dbf :: "string Env" where
  "env_unreachable_dbf =
     \<lparr>fetch = (\<lambda>path. if path = ''/crown_outlines.shp'' then Inr (response_ok [1])
                      else Inl NetworkError),
      shapefile_read = (\<lambda>shp dbf. Inr demo_features)\<rparr>"

text \<open>
  One resource under a path without \<^verbatim>\<open>.shp\<close>; the decoder accepts it only when the
  attribute buffer it is given is the geometry buffer itself.
\<close>

definition env_single_resource :: "string Env" where
  "env_single_resource =
     \<lparr>fetch = (\<lambda>path. if path = ''/crown_outlines.zip'' then Inr (response_ok [9])
                      else Inr response_not_found),
      shapefile_read = (\<lambda>shp dbf. if dbf = Some shp then Inr demo_features
                                   else Inl ParseError)\<rparr>"







section \<open>Properties of the clipper\<close>

subsection \<open>The loop of \<^verbatim>\<open>clipEdge\<close>, for any predicate and any intersection function\<close>

lemma clipEdge_loop_total:
  assumes "\<And>a b. inside a \<noteq> inside b \<Longrightarrow> \<exists>p. intersect a b = Inr p"
  shows "\<exists>out. clipEdge_loop inside intersect prev (inside prev) polygon acc = Inr out"
proof (induction polygon arbitrary: prev acc)
  case Nil
  show ?case by simp
next
  case (Cons c rest)
  show ?case
  proof (cases "inside c = inside prev")
    case True
    then show ?thesis using Cons.IH [of c] by (cases "inside prev") (auto simp: Let_def)
  next
    case False
    then obtain p where p: "intersect prev c = Inr p" using assms [of prev c] by auto
    show ?thesis using False p Cons.IH [of c] by (cases "inside prev") (auto simp: Let_def)
  qed
qed



lemma clipEdge_loop_all_outside:
  "\<forall>p\<in>set polygon. \<not> inside p \<Longrightarrow>
   clipEdge_loop inside intersect prev False polygon acc = Inr acc"
  by (induction polygon arbitrary: prev acc) (simp_all add: Let_def)

lemma clipEdge_loop_subseq:
  "clipEdge_loop inside intersect prev prevInside polygon acc = Inr out \<Longrightarrow>
   \<exists>ext. out = acc @ ext \<and> subseq (filter inside polygon) ext"
proof (induction polygon arbitrary: prev prevInside acc)
  case Nil
  then show ?case by simp
next
  case (Cons c rest)
  show ?case
  proof (cases "inside c")
    case True
    show ?thesis
    proof (cases prevInside)
      case pin: True
      with True Cons.prems
      have "clipEdge_loop inside intersect c True rest (acc @ [c]) = Inr out"
        by (simp add: Let_def)
      from Cons.IH [OF this] obtain ext where "out = (acc @ [c]) @ ext" "subseq (filter inside rest) ext"
        by blast
      then show ?thesis using True by (intro exI [of _ "c # ext"]) simp
    next
      case pout: False
      with True Cons.prems obtain p where
        "clipEdge_loop inside intersect c True rest (acc @ [p] @ [c]) = Inr out"
        by (cases "intersect prev c") (auto simp: Let_def)
      from Cons.IH [OF this] obtain ext where "out = (acc @ [p] @ [c]) @ ext" "subseq (filter inside rest) ext"
        by blast
      then have "out = acc @ (p # c # ext)"
        and "subseq (c # filter inside rest) (p # c # ext)"
        by (simp_all add: list_emb_Cons)
      then show ?thesis using True by (intro exI [of _ "p # c # ext"]) simp
    qed
  next
    case False
    show ?thesis
    proof (cases prevInside)
      case pin: True
      with False Cons.prems obtain p where
        "clipEdge_loop inside intersect c False rest (acc @ [p]) = Inr out"
        by (cases "intersect prev c") (auto simp: Let_def)
      from Cons.IH [OF this] obtain ext where "out = (acc @ [p]) @ ext" "subseq (filter inside rest) ext"
        by blast
      then show ?thesis using False by (intro exI [of _ "p # ext"]) (simp add: list_emb_Cons)
    next
      case pout: False
      with False Cons.prems
      have "clipEdge_loop inside intersect c False rest acc = Inr out"
        by (simp add: Let_def)
      from Cons.IH [OF this] show ?thesis using False by simp
    qed
  qed
qed

lemma intersect_calls_loop_straddle:
  "(a, b) \<in> set (intersect_calls_loop inside prev prevInside polygon) \<Longrightarrow>
   prevInside = inside prev \<Longrightarrow> inside a \<noteq> inside b"
proof (induction polygon arbitrary: prev prevInside)
  case Nil
  then show ?case by simp
next
  case (Cons c rest)
  show ?case
  proof (cases "(a, b) = (prev, c) \<and> inside c \<noteq> inside prev")
    case True
    then show ?thesis by auto
  next
    case False
    with Cons.prems have "(a, b) \<in> set (intersect_calls_loop inside c (inside c) rest)"
      by (auto simp: Let_def split: if_splits)
    then show ?thesis using Cons.IH by blast
  qed
qed

lemma clipEdge_loop_returns_iff:
  "(\<exists>out. clipEdge_loop inside intersect prev prevInside polygon acc = Inr out) \<longleftrightarrow>
   (\<forall>(a, b)\<in>set (intersect_calls_loop inside prev prevInside polygon). \<exists>p. intersect a b = Inr p)"
proof (induction polygon arbitrary: prev prevInside acc)
  case Nil
  show ?case by simp
next
  case (Cons c rest)
  show ?case
  proof (cases "intersect prev c")
    case (Inl e)
    then show ?thesis using Cons.IH by (auto simp: Let_def)
  next
    case (Inr p)
    then show ?thesis using Cons.IH by (simp add: Let_def)
  qed
qed

subsection \<open>\<^verbatim>\<open>clipEdge\<close>\<close>

lemma clipEdge_total:
  assumes "\<And>a b. inside a \<noteq> inside b \<Longrightarrow> \<exists>p. intersect a b = Inr p"
  shows "\<exists>out. clipEdge polygon inside intersect = Inr out"
  using clipEdge_loop_total [of inside intersect "last polygon" polygon "[]", OF assms]
  by (simp add: clipEdge_def Let_def)



lemma clipEdge_all_outside:
  "\<forall>p\<in>set polygon. \<not> inside p \<Longrightarrow> clipEdge polygon inside intersect = Inr []"
  by (cases "polygon = []") (simp_all add: clipEdge_def Let_def clipEdge_loop_all_outside)


lemma clipEdge_subseq:
  "clipEdge polygon inside intersect = Inr out \<Longrightarrow> subseq (filter inside polygon) out"
  using clipEdge_loop_subseq [of inside intersect "last polygon" "inside (last polygon)" polygon "[]" out]
  by (cases "polygon = []") (auto simp: clipEdge_def Let_def)

lemma intersect_calls_straddle:
  "(a, b) \<in> set (intersect_calls polygon inside) \<Longrightarrow> inside a \<noteq> inside b"
  using intersect_calls_loop_straddle [of a b inside "last polygon" "inside (last polygon)" polygon]
  by (cases "polygon = []") (auto simp: intersect_calls_def)

lemma clipEdge_returns_iff:
  "(\<exists>out. clipEdge polygon inside intersect = Inr out) \<longleftrightarrow>
   (\<forall>(a, b)\<in>set (intersect_calls polygon inside). \<exists>p. intersect a b = Inr p)"
  using clipEdge_loop_returns_iff [of inside intersect "last polygon" "inside (last polygon)" polygon "[]"]
  by (cases "polygon = []") (simp_all add: clipEdge_def intersect_calls_def Let_def)

subsection \<open>Linear interpolation between two points that straddle a boundary\<close>

lemma convex_lower:
  fixes t :: real
  assumes "0 \<le> t" "t \<le> 1" "l \<le> u" "l \<le> v"
  shows "l \<le> u + t * (v - u)"
proof -
  have "0 \<le> (1 - t) * (u - l) + t * (v - l)"
    using assms by (intro add_nonneg_nonneg mult_nonneg_nonneg) simp_all
  also have "\<dots> = u + t * (v - u) - l" by (simp add: algebra_simps)
  finally show ?thesis by simp
qed

lemma convex_upper:
  fixes t :: real
  assumes "0 \<le> t" "t \<le> 1" "u \<le> h" "v \<le> h"
  shows "u + t * (v - u) \<le> h"
proof -
  have "0 \<le> (1 - t) * (h - u) + t * (h - v)"
    using assms by (intro add_nonneg_nonneg mult_nonneg_nonneg) simp_all
  also have "\<dots> = h - (u + t * (v - u))" by (simp add: algebra_simps)
  finally show ?thesis by simp
qed

lemma convex_lower_strict:
  fixes t :: real
  assumes "0 \<le> t" "t \<le> 1" "l < u" "l < v"
  shows "l < u + t * (v - u)"
proof -
  have "min u v \<le> u + t * (v - u)"
    using convex_lower [OF assms(1,2), of "min u v" u v] by simp
  then show ?thesis using assms(3,4) by simp
qed

lemma convex_upper_strict:
  fixes t :: real
  assumes "0 \<le> t" "t \<le> 1" "u < h" "v < h"
  shows "u + t * (v - u) < h"
proof -
  have "u + t * (v - u) \<le> max u v"
    using convex_upper [OF assms(1,2), of u "max u v" v] by simp
  then show ?thesis using assms(3,4) by simp
qed


subsection \<open>Arithmetic of the number model\<close>

lemma overflow_threshold_gt_one: "1 < overflow_threshold"
  by (simp add: overflow_threshold_def)



lemma round_overflow_zero_iff: "round_overflow r = Fin 0 \<longleftrightarrow> r = 0"
  using overflow_threshold_gt_one by (auto simp: round_overflow_def)

lemma num_sub_zero_iff: "num_sub a b = Fin 0 \<longleftrightarrow> (\<exists>r. a = Fin r \<and> b = Fin r)"
  by (cases a; cases b) (auto simp: num_sub_def round_overflow_zero_iff)

lemma num_div_Some_iff: "(\<exists>t. num_div a b = Some t) \<longleftrightarrow> b \<noteq> Fin 0"
  by (cases a; cases b) auto

lemma straddle_divisor:
  assumes "num_le c x1 \<noteq> num_le c x2 \<or> num_le x1 c \<noteq> num_le x2 c"
  shows "num_sub x2 x1 \<noteq> Fin 0"
  using assms by (auto simp: num_sub_zero_iff)



subsection \<open>The four intersection functions at a straddling pair\<close>

text \<open>For any numbers: the divisor is not zero and the function returns a point.\<close>

lemma intersect_left_straddle:
  assumes "inside_left bounds (x1, y1) \<noteq> inside_left bounds (x2, y2)"
  shows "num_sub x2 x1 \<noteq> Fin 0" and "\<exists>p. intersect_left bounds (x1, y1) (x2, y2) = Inr p"
proof -
  show d: "num_sub x2 x1 \<noteq> Fin 0"
    using assms by (intro straddle_divisor [of "minX bounds"]) (simp add: inside_left_def num_ge_def)
  then obtain t where "num_div (num_sub (minX bounds) x1) (num_sub x2 x1) = Some t"
    using num_div_Some_iff by blast
  then show "\<exists>p. intersect_left bounds (x1, y1) (x2, y2) = Inr p"
    by (simp add: intersect_left_def)
qed

lemma intersect_right_straddle:
  assumes "inside_right bounds (x1, y1) \<noteq> inside_right bounds (x2, y2)"
  shows "num_sub x2 x1 \<noteq> Fin 0" and "\<exists>p. intersect_right bounds (x1, y1) (x2, y2) = Inr p"
proof -
  show d: "num_sub x2 x1 \<noteq> Fin 0"
    using assms by (intro straddle_divisor [of "maxX bounds"]) (simp add: inside_right_def)
  then obtain t where "num_div (num_sub (maxX bounds) x1) (num_sub x2 x1) = Some t"
    using num_div_Some_iff by blast
  then show "\<exists>p. intersect_right bounds (x1, y1) (x2, y2) = Inr p"
    by (simp add: intersect_right_def)
qed

lemma intersect_bottom_straddle:
  assumes "inside_bottom bounds (x1, y1) \<noteq> inside_bottom bounds (x2, y2)"
  shows "num_sub y2 y1 \<noteq> Fin 0" and "\<exists>p. intersect_bottom bounds (x1, y1) (x2, y2) = Inr p"
proof -
  show d: "num_sub y2 y1 \<noteq> Fin 0"
    using assms by (intro straddle_divisor [of "minY bounds"]) (simp add: inside_bottom_def num_ge_def)
  then obtain t where "num_div (num_sub (minY bounds) y1) (num_sub y2 y1) = Some t"
    using num_div_Some_iff by blast
  then show "\<exists>p. intersect_bottom bounds (x1, y1) (x2, y2) = Inr p"
    by (simp add: intersect_bottom_def)
qed

lemma intersect_top_straddle:
  assumes "inside_top bounds (x1, y1) \<noteq> inside_top bounds (x2, y2)"
  shows "num_sub y2 y1 \<noteq> Fin 0" and "\<exists>p. intersect_top bounds (x1, y1) (x2, y2) = Inr p"
proof -
  show d: "num_sub y2 y1 \<noteq> Fin 0"
    using assms by (intro straddle_divisor [of "maxY bounds"]) (simp add: inside_top_def)
  then obtain t where "num_div (num_sub (maxY bounds) y1) (num_sub y2 y1) = Some t"
    using num_div_Some_iff by blast
  then show "\<exists>p. intersect_top bounds (x1, y1) (x2, y2) = Inr p"
    by (simp add: intersect_top_def)
qed

text \<open>Each pass returns.\<close>

lemma clip_left_total: "\<exists>out. clipEdge polygon (inside_left bounds) (intersect_left bounds) = Inr out"
  by (rule clipEdge_total) (use intersect_left_straddle(2) in force)

lemma clip_right_total: "\<exists>out. clipEdge polygon (inside_right bounds) (intersect_right bounds) = Inr out"
  by (rule clipEdge_total) (use intersect_right_straddle(2) in force)

lemma clip_bottom_total: "\<exists>out. clipEdge polygon (inside_bottom bounds) (intersect_bottom bounds) = Inr out"
  by (rule clipEdge_total) (use intersect_bottom_straddle(2) in force)

lemma clip_top_total: "\<exists>out. clipEdge polygon (inside_top bounds) (intersect_top bounds) = Inr out"
  by (rule clipEdge_total) (use intersect_top_straddle(2) in force)

text \<open>The four passes, named.\<close>

lemma clipPolygonToBounds_passes:
  obtains output1 output2 output3 output4 where
    "clipEdge polygon (inside_left bounds) (intersect_left bounds) = Inr output1"
    "clipEdge output1 (inside_right bounds) (intersect_right bounds) = Inr output2"
    "clipEdge output2 (inside_bottom bounds) (intersect_bottom bounds) = Inr output3"
    "clipEdge output3 (inside_top bounds) (intersect_top bounds) = Inr output4"
    "clipPolygonToBounds polygon bounds = Inr output4"
proof -
  obtain o1 where o1: "clipEdge polygon (inside_left bounds) (intersect_left bounds) = Inr o1"
    using clip_left_total by blast
  obtain o2 where o2: "clipEdge o1 (inside_right bounds) (intersect_right bounds) = Inr o2"
    using clip_right_total by blast
  obtain o3 where o3: "clipEdge o2 (inside_bottom bounds) (intersect_bottom bounds) = Inr o3"
    using clip_bottom_total by blast
  obtain o4 where o4: "clipEdge o3 (inside_top bounds) (intersect_top bounds) = Inr o4"
    using clip_top_total by blast
  have "clipPolygonToBounds polygon bounds = Inr o4"
    by (simp add: clipPolygonToBounds_def o1 o2 o3 o4)
  then show ?thesis using that o1 o2 o3 o4 by blast
qed

lemma clipPolygonToBounds_total: "\<exists>out. clipPolygonToBounds polygon bounds = Inr out"
  by (rule clipPolygonToBounds_passes [of polygon bounds]) blast





subsection \<open>A pass without overflow keeps every convex property of the vertices\<close>





subsection \<open>\<^verbatim>\<open>clipPolygonToBounds\<close>\<close>

lemma in_bounds_iff:
  "in_bounds bounds p \<longleftrightarrow>
   inside_left bounds p \<and> inside_right bounds p \<and> inside_bottom bounds p \<and> inside_top bounds p"
  by (cases p) (auto simp: in_bounds_def inside_left_def inside_right_def inside_bottom_def inside_top_def num_ge_def)



lemma clipPolygonToBounds_subseq:
  assumes "clipPolygonToBounds polygon bounds = Inr out"
  shows "subseq (filter (in_bounds bounds) polygon) out"
proof -
  obtain o1 o2 o3 o4 where
    o1: "clipEdge polygon (inside_left bounds) (intersect_left bounds) = Inr o1" and
    o2: "clipEdge o1 (inside_right bounds) (intersect_right bounds) = Inr o2" and
    o3: "clipEdge o2 (inside_bottom bounds) (intersect_bottom bounds) = Inr o3" and
    o4: "clipEdge o3 (inside_top bounds) (intersect_top bounds) = Inr o4" and
    res: "clipPolygonToBounds polygon bounds = Inr o4"
    by (rule clipPolygonToBounds_passes)
  have out: "out = o4" using assms res by simp
  let ?l = "inside_left bounds" and ?r = "inside_right bounds"
  let ?b = "inside_bottom bounds" and ?t = "inside_top bounds"
  have "subseq (filter ?l polygon) o1" by (rule clipEdge_subseq [OF o1])
  then have "subseq (filter ?r (filter ?l polygon)) (filter ?r o1)" by (rule subseq_filter)
  also have "subseq (filter ?r o1) o2" by (rule clipEdge_subseq [OF o2])
  finally have "subseq (filter ?b (filter ?r (filter ?l polygon))) (filter ?b o2)"
    by (rule subseq_filter)
  also have "subseq (filter ?b o2) o3" by (rule clipEdge_subseq [OF o3])
  finally have "subseq (filter ?t (filter ?b (filter ?r (filter ?l polygon)))) (filter ?t o3)"
    by (rule subseq_filter)
  also have "subseq (filter ?t o3) o4" by (rule clipEdge_subseq [OF o4])
  finally have "subseq (filter ?t (filter ?b (filter ?r (filter ?l polygon)))) o4" .
  moreover have "filter ?t (filter ?b (filter ?r (filter ?l polygon))) = filter (in_bounds bounds) polygon"
    by (auto simp: in_bounds_iff intro: filter_cong)
  ultimately show ?thesis using out by simp
qed





section \<open>Properties of the loader\<close>

lemma clip_rings_map:
  "clip_rings rings bounds = Inr clipped \<longleftrightarrow>
   map (\<lambda>ring. clipPolygonToBounds ring bounds) rings = map Inr clipped"
proof (induction rings arbitrary: clipped)
  case Nil
  show ?case by auto
next
  case (Cons r rest)
  obtain c where c: "clipPolygonToBounds r bounds = Inr c"
    using clipPolygonToBounds_total by blast
  show ?case
  proof (cases "clip_rings rest bounds")
    case (Inl e)
    then have "\<And>cs. map (\<lambda>ring. clipPolygonToBounds ring bounds) rest \<noteq> map Inr cs"
      using Cons.IH by simp
    then show ?thesis using Inl c by (cases clipped) auto
  next
    case (Inr cs)
    then have "map (\<lambda>ring. clipPolygonToBounds ring bounds) rest = map Inr cs"
      using Cons.IH by simp
    then show ?thesis using Inr c by (cases clipped) (auto simp: inj_map_eq_map)
  qed
qed

lemma clip_rings_total: "\<exists>clipped. clip_rings rings bounds = Inr clipped"
proof (induction rings)
  case Nil
  show ?case by simp
next
  case (Cons r rest)
  obtain c where "clipPolygonToBounds r bounds = Inr c"
    using clipPolygonToBounds_total by blast
  then show ?case using Cons by auto
qed

lemma clip_rings_member:
  assumes "clip_rings rings bounds = Inr clipped" and "r \<in> set clipped"
  shows "\<exists>ring\<in>set rings. clipPolygonToBounds ring bounds = Inr r"
proof -
  have "Inr r \<in> set (map Inr clipped :: (error + ring) list)" using assms(2) by simp
  then have "Inr r \<in> set (map (\<lambda>ring. clipPolygonToBounds ring bounds) rings)"
    using assms(1) by (simp only: clip_rings_map)
  then show ?thesis by auto
qed

lemma forEach_feature_total:
  "\<exists>crowns. forEach_feature bounds features acc = Inr crowns"
proof (induction features arbitrary: acc)
  case Nil
  show ?case by simp
next
  case (Cons f rest)
  show ?case
  proof (cases "geometry f")
    case None
    then show ?thesis using Cons by simp
  next
    case (Some g)
    show ?thesis
    proof (cases g)
      case (Polygon rings)
      obtain clipped where "clip_rings rings bounds = Inr clipped"
        using clip_rings_total by blast
      then show ?thesis using Some Polygon Cons by (simp add: Let_def)
    next
      case (OtherGeometry t)
      then show ?thesis using Some Cons by simp
    qed
  qed
qed

lemma forEach_feature_geometry_only_total:
  "\<exists>crowns. forEach_feature_geometry_only bounds features acc = Inr crowns"
proof (induction features arbitrary: acc)
  case Nil
  show ?case by simp
next
  case (Cons f rest)
  show ?case
  proof (cases "geometry f")
    case None
    then show ?thesis using Cons by simp
  next
    case (Some g)
    show ?thesis
    proof (cases g)
      case (Polygon rings)
      obtain clipped where "clip_rings rings bounds = Inr clipped"
        using clip_rings_total by blast
      then show ?thesis using Some Polygon Cons by (simp add: Let_def)
    next
      case (OtherGeometry t)
      then show ?thesis using Some Cons by simp
    qed
  qed
qed

lemma forEach_feature_crowns:
  assumes "forEach_feature bounds features acc = Inr crowns"
  shows "\<exists>new. crowns = acc @ new \<and>
    (\<forall>c\<in>set new. \<exists>f\<in>set features. \<exists>rings clipped.
        geometry f = Some (Polygon rings) \<and> clip_rings rings bounds = Inr clipped \<and>
        coordinates c = filter (\<lambda>ring. length ring > 2) clipped \<and> coordinates c \<noteq> [] \<and>
        properties c = (case feature_properties f of None \<Rightarrow> Map.empty | Some props \<Rightarrow> props) \<and>
        type_tag c = ''Polygon'')"
  using assms
proof (induction features arbitrary: acc)
  case Nil
  then show ?case by simp
next
  case (Cons f rest)
  show ?case
  proof (cases "\<exists>rings. geometry f = Some (Polygon rings)")
    case False
    then have "forEach_feature bounds rest acc = Inr crowns"
      using Cons.prems by (auto split: option.splits geometry.splits)
    from Cons.IH [OF this] show ?thesis by auto
  next
    case True
    then obtain rings where g: "geometry f = Some (Polygon rings)" by blast
    obtain clipped where cl: "clip_rings rings bounds = Inr clipped"
      using clip_rings_total by blast
    let ?cc = "filter (\<lambda>ring. length ring > 2) clipped"
    show ?thesis
    proof (cases "?cc = []")
      case True
      then have "forEach_feature bounds rest acc = Inr crowns"
        using Cons.prems g cl by (simp add: Let_def)
      from Cons.IH [OF this] show ?thesis by auto
    next
      case False
      let ?c = "\<lparr>type_tag = ''Polygon'', coordinates = ?cc,
                 properties = (case feature_properties f of None \<Rightarrow> Map.empty | Some props \<Rightarrow> props)\<rparr>"
      have "forEach_feature bounds rest (acc @ [?c]) = Inr crowns"
        using Cons.prems g cl False by (simp add: Let_def)
      from Cons.IH [OF this] obtain new where new: "crowns = (acc @ [?c]) @ new"
        "\<forall>c\<in>set new. \<exists>f\<in>set rest. \<exists>rings clipped.
          geometry f = Some (Polygon rings) \<and> clip_rings rings bounds = Inr clipped \<and>
          coordinates c = filter (\<lambda>ring. length ring > 2) clipped \<and> coordinates c \<noteq> [] \<and>
          properties c = (case feature_properties f of None \<Rightarrow> Map.empty | Some props \<Rightarrow> props) \<and>
          type_tag c = ''Polygon''"
        by blast
      have "\<exists>f'\<in>set (f # rest). \<exists>rings clipped.
          geometry f' = Some (Polygon rings) \<and> clip_rings rings bounds = Inr clipped \<and>
          coordinates c = filter (\<lambda>ring. length ring > 2) clipped \<and> coordinates c \<noteq> [] \<and>
          properties c = (case feature_properties f' of None \<Rightarrow> Map.empty | Some props \<Rightarrow> props) \<and>
          type_tag c = ''Polygon''" if "c \<in> set (?c # new)" for c
      proof (cases "c = ?c")
        case True
        then show ?thesis using g cl False by (intro bexI [of _ f]) auto
      next
        case False
        then have "c \<in> set new" using that by simp
        then show ?thesis using new(2) by fastforce
      qed
      then show ?thesis using new(1) by (intro exI [of _ "?c # new"]) simp
    qed
  qed
qed

lemma forEach_feature_geometry_only_crowns:
  assumes "forEach_feature_geometry_only bounds features acc = Inr crowns"
  shows "\<exists>new. crowns = acc @ new \<and>
    (\<forall>c\<in>set new. \<exists>f\<in>set features. \<exists>rings clipped.
        geometry f = Some (Polygon rings) \<and> clip_rings rings bounds = Inr clipped \<and>
        coordinates c = filter (\<lambda>ring. length ring > 2) clipped \<and> coordinates c \<noteq> [] \<and>
        properties c = Map.empty \<and> type_tag c = ''Polygon'')"
  using assms
proof (induction features arbitrary: acc)
  case Nil
  then show ?case by simp
next
  case (Cons f rest)
  show ?case
  proof (cases "\<exists>rings. geometry f = Some (Polygon rings)")
    case False
    then have "forEach_feature_geometry_only bounds rest acc = Inr crowns"
      using Cons.prems by (auto split: option.splits geometry.splits)
    from Cons.IH [OF this] show ?thesis by auto
  next
    case True
    then obtain rings where g: "geometry f = Some (Polygon rings)" by blast
    obtain clipped where cl: "clip_rings rings bounds = Inr clipped"
      using clip_rings_total by blast
    let ?cc = "filter (\<lambda>ring. length ring > 2) clipped"
    show ?thesis
    proof (cases "?cc = []")
      case True
      then have "forEach_feature_geometry_only bounds rest acc = Inr crowns"
        using Cons.prems g cl by (simp add: Let_def)
      from Cons.IH [OF this] show ?thesis by auto
    next
      case False
      let ?c = "\<lparr>type_tag = ''Polygon'', coordinates = ?cc, properties = Map.empty\<rparr>"
      have "forEach_feature_geometry_only bounds rest (acc @ [?c]) = Inr crowns"
        using Cons.prems g cl False by (simp add: Let_def)
      from Cons.IH [OF this] obtain new where new: "crowns = (acc @ [?c]) @ new"
        "\<forall>c\<in>set new. \<exists>f\<in>set rest. \<exists>rings clipped.
          geometry f = Some (Polygon rings) \<and> clip_rings rings bounds = Inr clipped \<and>
          coordinates c = filter (\<lambda>ring. length ring > 2) clipped \<and> coordinates c \<noteq> [] \<and>
          properties c = Map.empty \<and> type_tag c = ''Polygon''"
        by blast
      have "\<exists>f'\<in>set (f # rest). \<exists>rings clipped.
          geometry f' = Some (Polygon rings) \<and> clip_rings rings bounds = Inr clipped \<and>
          coordinates c = filter (\<lambda>ring. length ring > 2) clipped \<and> coordinates c \<noteq> [] \<and>
          properties c = Map.empty \<and> type_tag c = ''Polygon''" if "c \<in> set (?c # new)" for c
      proof (cases "c = ?c")
        case True
        then show ?thesis using g cl False by (intro bexI [of _ f]) auto
      next
        case False
        then have "c \<in> set new" using that by simp
        then show ?thesis using new(2) by fastforce
      qed
      then show ?thesis using new(1) by (intro exI [of _ "?c # new"]) simp
    qed
  qed
qed

lemma try_block_Returned:
  "try_block env shapefilePath bounds = Returned crowns \<Longrightarrow>
   \<exists>shp dbf features. shapefile_read env shp dbf = Inr features \<and>
      forEach_feature bounds features [] = Inr crowns"
  by (auto simp: try_block_def Let_def split: sum.splits if_splits)

lemma try_block_ReturnedPromise:
  "try_block env shapefilePath bounds = ReturnedPromise promise \<Longrightarrow>
   \<exists>shpBuffer. promise = loadGeometryOnly env shpBuffer bounds"
  by (auto simp: try_block_def Let_def split: sum.splits if_splits)

text \<open>
  Every ring of every \<open>CrownPolygon\<close> returned has more than 2 vertices and is the clip
  of a ring of a polygon feature that the decoder returned.
\<close>

lemma loadGeometryOnly_ring:
  assumes "loadGeometryOnly env shpBuffer bounds = Inr crowns"
    and "c \<in> set crowns" and "r \<in> set (coordinates c)"
  shows "length r > 2 \<and> (\<exists>features f rings ring.
     shapefile_read env shpBuffer None = Inr features \<and> f \<in> set features \<and>
     geometry f = Some (Polygon rings) \<and> ring \<in> set rings \<and>
     clipPolygonToBounds ring bounds = Inr r)"
proof -
  obtain features where rd: "shapefile_read env shpBuffer None = Inr features"
    and fe: "forEach_feature_geometry_only bounds features [] = Inr crowns"
    using assms(1) by (auto simp: loadGeometryOnly_def split: sum.splits)
  from forEach_feature_geometry_only_crowns [OF fe] assms(2)
  obtain f rings clipped where f: "f \<in> set features" "geometry f = Some (Polygon rings)"
    and cl: "clip_rings rings bounds = Inr clipped"
    and co: "coordinates c = filter (\<lambda>ring. length ring > 2) clipped"
    by fastforce
  have "r \<in> set clipped" and len: "length r > 2" using assms(3) co by simp_all
  then obtain ring where "ring \<in> set rings" "clipPolygonToBounds ring bounds = Inr r"
    using clip_rings_member [OF cl] by blast
  then show ?thesis using rd f len by blast
qed

lemma loadCrownShapefile_ring:
  assumes "loadCrownShapefile env shapefilePath bounds = Inr crowns"
    and "c \<in> set crowns" and "r \<in> set (coordinates c)"
  shows "length r > 2 \<and> (\<exists>shp dbf features f rings ring.
     shapefile_read env shp dbf = Inr features \<and> f \<in> set features \<and>
     geometry f = Some (Polygon rings) \<and> ring \<in> set rings \<and>
     clipPolygonToBounds ring bounds = Inr r)"
proof (cases "try_block env shapefilePath bounds")
  case (Thrown e)
  then have "crowns = []" using assms(1) by (simp add: loadCrownShapefile_def)
  then show ?thesis using assms(2) by simp
next
  case (Returned cs)
  then have "cs = crowns" using assms(1) by (simp add: loadCrownShapefile_def)
  then obtain shp dbf features where rd: "shapefile_read env shp dbf = Inr features"
    and fe: "forEach_feature bounds features [] = Inr crowns"
    using try_block_Returned Returned by blast
  from forEach_feature_crowns [OF fe] assms(2)
  obtain f rings clipped where f: "f \<in> set features" "geometry f = Some (Polygon rings)"
    and cl: "clip_rings rings bounds = Inr clipped"
    and co: "coordinates c = filter (\<lambda>ring. length ring > 2) clipped"
    by fastforce
  have "r \<in> set clipped" and len: "length r > 2" using assms(3) co by simp_all
  then obtain ring where "ring \<in> set rings" "clipPolygonToBounds ring bounds = Inr r"
    using clip_rings_member [OF cl] by blast
  then show ?thesis using rd f len by blast
next
  case (ReturnedPromise promise)
  then have "promise = Inr crowns" using assms(1) by (simp add: loadCrownShapefile_def)
  then obtain shpBuffer where "loadGeometryOnly env shpBuffer bounds = Inr crowns"
    using try_block_ReturnedPromise ReturnedPromise by metis
  from loadGeometryOnly_ring [OF this assms(2,3)] show ?thesis by blast
qed

subsection \<open>Evaluation on the concrete inputs\<close>

lemmas clip_eval =
  clipPolygonToBounds_def clipEdge_def inside_left_def inside_right_def inside_bottom_def
  inside_top_def intersect_left_def intersect_right_def intersect_bottom_def intersect_top_def
  num_sub_def num_ge_def round_overflow_def overflow_threshold_def fin_ring_def

lemma demo_clip_rings:
  "clip_rings [fin_ring [(-1, -1), (-1, 1), (1, 1), (1, -1)], fin_ring [(7, 7), (7, 8), (8, 8)]]
     demo_bounds = Inr [fin_ring [(0, 0), (0, 1), (1, 1), (1, 0)], []]"
  "clip_rings [fin_ring [(6, 6), (6, 7), (7, 7)]] demo_bounds = Inr [[]]"
  by (simp_all add: clip_eval demo_bounds_def)

lemma demo_forEach:
  "forEach_feature demo_bounds demo_features [] =
     Inr [\<lparr>type_tag = ''Polygon'', coordinates = [fin_ring [(0, 0), (0, 1), (1, 1), (1, 0)]],
           properties = [''species'' \<mapsto> ''oak'']\<rparr>]"
  by (simp add: demo_features_def demo_clip_rings del: clip_rings.simps) (simp add: fin_ring_def)

lemma demo_forEach_geometry_only:
  "forEach_feature_geometry_only demo_bounds demo_features [] =
     Inr [\<lparr>type_tag = ''Polygon'', coordinates = [fin_ring [(0, 0), (0, 1), (1, 1), (1, 0)]],
           properties = Map.empty\<rparr>]"
  by (simp add: demo_features_def demo_clip_rings del: clip_rings.simps) (simp add: fin_ring_def)

lemma demo_load_complete:
  "loadCrownShapefile env_complete ''/crown_outlines.shp'' demo_bounds =
     Inr [\<lparr>type_tag = ''Polygon'', coordinates = [fin_ring [(0, 0), (0, 1), (1, 1), (1, 0)]],
           properties = [''species'' \<mapsto> ''oak'']\<rparr>]"
  by (simp add: loadCrownShapefile_def try_block_def env_complete_def response_ok_def demo_forEach)

lemma demo_load_missing_dbf:
  "loadCrownShapefile env_missing_dbf ''/crown_outlines.shp'' demo_bounds =
     Inr [\<lparr>type_tag = ''Polygon'', coordinates = [fin_ring [(0, 0), (0, 1), (1, 1), (1, 0)]],
           properties = Map.empty\<rparr>]"
  by (simp add: loadCrownShapefile_def try_block_def env_missing_dbf_def response_ok_def
      response_not_found_def loadGeometryOnly_def demo_forEach_geometry_only)

lemma demo_geometry_only:
  "loadGeometryOnly env_missing_dbf [1] demo_bounds =
     Inr [\<lparr>type_tag = ''Polygon'', coordinates = [fin_ring [(0, 0), (0, 1), (1, 1), (1, 0)]],
           properties = Map.empty\<rparr>]"
  by (simp add: env_missing_dbf_def loadGeometryOnly_def demo_forEach_geometry_only)


section \<open>The claims\<close>

subsection \<open>C1: ring validity\<close>

text \<open>
  C1. Whatever the bounds and the environment are, every ring of every \<open>CrownPolygon\<close>
  that \<^verbatim>\<open>loadCrownShapefile\<close> returns has at least 3 vertices, and so has every ring
  of every \<open>CrownPolygon\<close> that the geometry-only fallback \<^verbatim>\<open>loadGeometryOnly\<close>
  returns. The claim's condition on the bounds is not needed.
\<close>

theorem ring_validity:
  "(loadCrownShapefile env shapefilePath bounds = Inr crowns \<longrightarrow>
      (\<forall>c\<in>set crowns. \<forall>ring\<in>set (coordinates c). 3 \<le> length ring)) \<and>
   (loadGeometryOnly env' shpBuffer bounds' = Inr crowns' \<longrightarrow>
      (\<forall>c\<in>set crowns'. \<forall>ring\<in>set (coordinates c). 3 \<le> length ring))"
proof (intro conjI impI ballI)
  fix c ring
  assume "loadCrownShapefile env shapefilePath bounds = Inr crowns"
    and "c \<in> set crowns" and "ring \<in> set (coordinates c)"
  then have "2 < length ring" using loadCrownShapefile_ring by blast
  then show "3 \<le> length ring" by linarith
next
  fix c ring
  assume "loadGeometryOnly env' shpBuffer bounds' = Inr crowns'"
    and "c \<in> set crowns'" and "ring \<in> set (coordinates c)"
  then have "2 < length ring" using loadGeometryOnly_ring by blast
  then show "3 \<le> length ring" by linarith
qed

text \<open>The model evaluated on the demonstration collection, with and without attributes.\<close>

theorem ring_validity_witness:
  "loadCrownShapefile env_complete ''/crown_outlines.shp'' demo_bounds =
     Inr [\<lparr>type_tag = ''Polygon'', coordinates = [fin_ring [(0, 0), (0, 1), (1, 1), (1, 0)]],
           properties = [''species'' \<mapsto> ''oak'']\<rparr>] \<and>
   loadGeometryOnly env_missing_dbf [1] demo_bounds =
     Inr [\<lparr>type_tag = ''Polygon'', coordinates = [fin_ring [(0, 0), (0, 1), (1, 1), (1, 0)]],
           properties = Map.empty\<rparr>] \<and>
   list_all (\<lambda>c. list_all (\<lambda>ring. 3 \<le> length ring) (coordinates c))
     [\<lparr>type_tag = ''Polygon'', coordinates = [fin_ring [(0, 0), (0, 1), (1, 1), (1, 0)]],
       properties = [''species'' \<mapsto> ''oak'']\<rparr>] \<and>
   list_all (\<lambda>c. list_all (\<lambda>ring. 3 \<le> length ring) (coordinates c))
     [\<lparr>type_tag = ''Polygon'', coordinates = [fin_ring [(0, 0), (0, 1), (1, 1), (1, 0)]],
       properties = (Map.empty :: string \<rightharpoonup> string)\<rparr>]"
  unfolding list_all_iff
  using ring_validity [where env = env_complete and shapefilePath = "''/crown_outlines.shp''"
      and bounds = demo_bounds and env' = env_missing_dbf and shpBuffer = "[1]"
      and bounds' = demo_bounds] demo_load_complete demo_geometry_only
  by blast

subsection \<open>C2: containment\<close>







subsection \<open>C6: the partially overlapping square\<close>

text \<open>
  C6. Clipping the ring \<open>[[-1,-1],[-1,1],[1,1],[1,-1]]\<close> against the bounds
  \<open>{minX: 0, minY: 0, maxX: 5, maxY: 5}\<close> yields the ring \<open>[[0,0],[0,1],[1,1],[1,0]]\<close>:
  exactly 4 points, all within the bounds.
\<close>

theorem partially_overlapping_square:
  "clipPolygonToBounds (fin_ring [(-1, -1), (-1, 1), (1, 1), (1, -1)])
     \<lparr>minX = Fin 0, minY = Fin 0, maxX = Fin 5, maxY = Fin 5\<rparr> =
     Inr (fin_ring [(0, 0), (0, 1), (1, 1), (1, 0)]) \<and>
   fin_ring [(0, 0), (0, 1), (1, 1), (1, 0)] =
     [(Fin 0, Fin 0), (Fin 0, Fin 1), (Fin 1, Fin 1), (Fin 1, Fin 0)] \<and>
   length (fin_ring [(0, 0), (0, 1), (1, 1), (1, 0)]) = 4 \<and>
   list_all (in_bounds \<lparr>minX = Fin 0, minY = Fin 0, maxX = Fin 5, maxY = Fin 5\<rparr>)
     (fin_ring [(0, 0), (0, 1), (1, 1), (1, 0)])"
  by (simp add: clip_eval in_bounds_def)

subsection \<open>C5: degenerate inputs\<close>







subsection \<open>C7: the projection formula\<close>

lemma projectToPixels_length:
  "length (projectToPixels coords imageBounds imageWidth imageHeight) = length coords"
  by (simp add: projectToPixels_def split: prod.splits)

lemma projectToPixels_nth:
  assumes "i < length coords"
  shows "projectToPixels coords imageBounds imageWidth imageHeight ! i =
         projectToPixels [coords ! i] imageBounds imageWidth imageHeight ! 0"
  using assms by (simp add: projectToPixels_def split: prod.splits)

lemma projectToPixels_nth_nth:
  assumes "i < length coords" and "j < length (coords ! i)"
  shows "length (projectToPixels coords imageBounds imageWidth imageHeight ! i) = length (coords ! i)"
    and "projectToPixels coords imageBounds imageWidth imageHeight ! i ! j =
         projectToPixels [[coords ! i ! j]] imageBounds imageWidth imageHeight ! 0 ! 0"
  using assms by (simp_all add: projectToPixels_def split: prod.splits)

lemma projectToPixels_ring_length:
  assumes "i < length coords"
  shows "length (projectToPixels coords imageBounds imageWidth imageHeight ! i) = length (coords ! i)"
  using assms by (simp add: projectToPixels_def split: prod.splits)



subsection \<open>C8: order preservation\<close>

text \<open>
  C8. The vertices of the input ring that \<^verbatim>\<open>clipPolygonToBounds\<close> retains (those within
  the bounds) appear in its output in their input order; the rings of a \<open>CrownPolygon\<close>
  are the clipped rings of its feature that keep more than 2 vertices, in the feature's
  ring order, in \<^verbatim>\<open>loadCrownShapefile\<close> and in the geometry-only fallback; and the
  result of \<^verbatim>\<open>projectToPixels\<close> has one ring per input ring and one pair per input
  point, the pair at a position being the projection of the point at that position.
\<close>

theorem order_preservation:
  "(\<exists>out. clipPolygonToBounds polygon bounds = Inr out \<and>
          subseq (filter (in_bounds bounds) polygon) out) \<and>
   (forEach_feature bounds features [] = Inr crowns \<longrightarrow>
      (\<forall>c\<in>set crowns. \<exists>f\<in>set features. \<exists>rings clipped.
         geometry f = Some (Polygon rings) \<and>
         map (\<lambda>ring. clipPolygonToBounds ring bounds) rings = map Inr clipped \<and>
         coordinates c = filter (\<lambda>ring. length ring > 2) clipped)) \<and>
   (forEach_feature_geometry_only bounds features' [] = Inr crowns' \<longrightarrow>
      (\<forall>c\<in>set crowns'. \<exists>f\<in>set features'. \<exists>rings clipped.
         geometry f = Some (Polygon rings) \<and>
         map (\<lambda>ring. clipPolygonToBounds ring bounds) rings = map Inr clipped \<and>
         coordinates c = filter (\<lambda>ring. length ring > 2) clipped)) \<and>
   length (projectToPixels coords imageBounds imageWidth imageHeight) = length coords \<and>
   (\<forall>i<length coords.
      length (projectToPixels coords imageBounds imageWidth imageHeight ! i) = length (coords ! i) \<and>
      (\<forall>j<length (coords ! i).
         projectToPixels coords imageBounds imageWidth imageHeight ! i ! j =
         projectToPixels [[coords ! i ! j]] imageBounds imageWidth imageHeight ! 0 ! 0))"
proof (intro conjI impI allI ballI)
  obtain out where out: "clipPolygonToBounds polygon bounds = Inr out"
    using clipPolygonToBounds_total by blast
  from clipPolygonToBounds_subseq [OF out] out
  show "\<exists>out. clipPolygonToBounds polygon bounds = Inr out \<and>
          subseq (filter (in_bounds bounds) polygon) out"
    by blast
next
  fix c
  assume "forEach_feature bounds features [] = Inr crowns" and "c \<in> set crowns"
  with forEach_feature_crowns [of bounds features "[]" crowns]
  show "\<exists>f\<in>set features. \<exists>rings clipped.
         geometry f = Some (Polygon rings) \<and>
         map (\<lambda>ring. clipPolygonToBounds ring bounds) rings = map Inr clipped \<and>
         coordinates c = filter (\<lambda>ring. length ring > 2) clipped"
    by (fastforce simp: clip_rings_map)
next
  fix c
  assume "forEach_feature_geometry_only bounds features' [] = Inr crowns'" and "c \<in> set crowns'"
  with forEach_feature_geometry_only_crowns [of bounds features' "[]" crowns']
  show "\<exists>f\<in>set features'. \<exists>rings clipped.
         geometry f = Some (Polygon rings) \<and>
         map (\<lambda>ring. clipPolygonToBounds ring bounds) rings = map Inr clipped \<and>
         coordinates c = filter (\<lambda>ring. length ring > 2) clipped"
    by (fastforce simp: clip_rings_map)
next
  show "length (projectToPixels coords imageBounds imageWidth imageHeight) = length coords"
    by (rule projectToPixels_length)
next
  fix i assume "i < length coords"
  then show "length (projectToPixels coords imageBounds imageWidth imageHeight ! i) = length (coords ! i)"
    by (rule projectToPixels_ring_length)
next
  fix i j assume "i < length coords" and "j < length (coords ! i)"
  then show "projectToPixels coords imageBounds imageWidth imageHeight ! i ! j =
         projectToPixels [[coords ! i ! j]] imageBounds imageWidth imageHeight ! 0 ! 0"
    by (rule projectToPixels_nth_nth(2))
qed

text \<open>
  A rectangle that sticks out above the scenario bounds, the demonstration collection,
  and two rings projected onto a \<open>1000 \<times> 500\<close> image.
\<close>

theorem order_preservation_witness:
  "clipPolygonToBounds (fin_ring [(1, 1), (1, 7), (3, 7), (3, 1)]) demo_bounds =
     Inr (fin_ring [(1, 1), (1, 5), (3, 5), (3, 1)]) \<and>
   filter (in_bounds demo_bounds) (fin_ring [(1, 1), (1, 7), (3, 7), (3, 1)]) =
     fin_ring [(1, 1), (3, 1)] \<and>
   subseq (fin_ring [(1, 1), (3, 1)]) (fin_ring [(1, 1), (1, 5), (3, 5), (3, 1)]) \<and>
   forEach_feature demo_bounds demo_features [] =
     Inr [\<lparr>type_tag = ''Polygon'', coordinates = [fin_ring [(0, 0), (0, 1), (1, 1), (1, 0)]],
           properties = [''species'' \<mapsto> ''oak'']\<rparr>] \<and>
   projectToPixels [[(10, 50), (0, 60)], [(20, 40)]] ((40, 0), (60, 20)) 1000 500 =
     [[(Some 500, Some 250), (Some 0, Some 0)], [(Some 1000, Some 500)]] \<and>
   length (projectToPixels [[(10, 50), (0, 60)], [(20, 40)]] ((40, 0), (60, 20)) 1000 500) = 2"
proof -
  have clip: "clipPolygonToBounds (fin_ring [(1, 1), (1, 7), (3, 7), (3, 1)]) demo_bounds =
     Inr (fin_ring [(1, 1), (1, 5), (3, 5), (3, 1)])"
    by (simp add: clip_eval demo_bounds_def)
  have flt: "filter (in_bounds demo_bounds) (fin_ring [(1, 1), (1, 7), (3, 7), (3, 1)]) =
     fin_ring [(1, 1), (3, 1)]"
    by (simp add: fin_ring_def in_bounds_def demo_bounds_def)
  note w = order_preservation [where polygon = "fin_ring [(1, 1), (1, 7), (3, 7), (3, 1)]"
      and bounds = demo_bounds and coords = "[[(10, 50), (0, 60)], [(20, 40)]]"
      and imageBounds = "((40, 0), (60, 20))" and imageWidth = 1000 and imageHeight = 500]
  have sub: "subseq (fin_ring [(1, 1), (3, 1)]) (fin_ring [(1, 1), (1, 5), (3, 5), (3, 1)])"
    using w [THEN conjunct1] by (simp only: clip flt) simp
  have len: "length (projectToPixels [[(10, 50), (0, 60)], [(20, 40)]] ((40, 0), (60, 20)) 1000 500) = 2"
    using w [THEN conjunct2, THEN conjunct2, THEN conjunct2, THEN conjunct1] by simp
  have proj: "projectToPixels [[(10, 50), (0, 60)], [(20, 40)]] ((40, 0), (60, 20)) 1000 500 =
     [[(Some 500, Some 250), (Some 0, Some 0)], [(Some 1000, Some 500)]]"
    by (simp add: projectToPixels_def js_div_def js_mul_def)
  show ?thesis using clip flt sub demo_forEach proj len by blast
qed

subsection \<open>C9: the interpolation never divides by zero\<close>

text \<open>
  C9. Every call \<^verbatim>\<open>intersect(prev, curr)\<close> that \<^verbatim>\<open>clipEdge\<close> makes, for any ring and any
  predicate, has one end point that satisfies \<^verbatim>\<open>inside\<close> and one that does not, and
  \<^verbatim>\<open>clipEdge\<close> returns a ring exactly when each of these calls returns a point. At
  such a pair the divisor of each of the four interpolations (\<open>x2 - x1\<close> for the left and
  right boundaries, \<open>y2 - y1\<close> for the lower and upper ones) is not zero and the
  intersection function returns a point. So \<^verbatim>\<open>clipPolygonToBounds\<close> returns a ring for
  every ring and every bounds, of finite or non-finite numbers: the division by zero is
  unreachable.
\<close>

theorem intersect_divisor_nonzero:
  "(\<forall>(a, b)\<in>set (intersect_calls polygon inside). inside a \<noteq> inside b) \<and>
   ((\<exists>out. clipEdge polygon inside intersect = Inr out) \<longleftrightarrow>
      (\<forall>(a, b)\<in>set (intersect_calls polygon inside). \<exists>p. intersect a b = Inr p)) \<and>
   (inside_left bounds (x1, y1) \<noteq> inside_left bounds (x2, y2) \<longrightarrow>
      num_sub x2 x1 \<noteq> Fin 0 \<and> (\<exists>p. intersect_left bounds (x1, y1) (x2, y2) = Inr p)) \<and>
   (inside_right bounds (x1, y1) \<noteq> inside_right bounds (x2, y2) \<longrightarrow>
      num_sub x2 x1 \<noteq> Fin 0 \<and> (\<exists>p. intersect_right bounds (x1, y1) (x2, y2) = Inr p)) \<and>
   (inside_bottom bounds (x1, y1) \<noteq> inside_bottom bounds (x2, y2) \<longrightarrow>
      num_sub y2 y1 \<noteq> Fin 0 \<and> (\<exists>p. intersect_bottom bounds (x1, y1) (x2, y2) = Inr p)) \<and>
   (inside_top bounds (x1, y1) \<noteq> inside_top bounds (x2, y2) \<longrightarrow>
      num_sub y2 y1 \<noteq> Fin 0 \<and> (\<exists>p. intersect_top bounds (x1, y1) (x2, y2) = Inr p)) \<and>
   (\<exists>out. clipPolygonToBounds ring bounds = Inr out)"
proof (intro conjI impI)
  show "\<forall>(a, b)\<in>set (intersect_calls polygon inside). inside a \<noteq> inside b"
    using intersect_calls_straddle by blast
  show "(\<exists>out. clipEdge polygon inside intersect = Inr out) \<longleftrightarrow>
      (\<forall>(a, b)\<in>set (intersect_calls polygon inside). \<exists>p. intersect a b = Inr p)"
    by (rule clipEdge_returns_iff)
  show "\<exists>out. clipPolygonToBounds ring bounds = Inr out"
    by (rule clipPolygonToBounds_total)
next
  assume s: "inside_left bounds (x1, y1) \<noteq> inside_left bounds (x2, y2)"
  show "num_sub x2 x1 \<noteq> Fin 0" by (rule intersect_left_straddle(1) [OF s])
  show "\<exists>p. intersect_left bounds (x1, y1) (x2, y2) = Inr p"
    by (rule intersect_left_straddle(2) [OF s])
next
  assume s: "inside_right bounds (x1, y1) \<noteq> inside_right bounds (x2, y2)"
  show "num_sub x2 x1 \<noteq> Fin 0" by (rule intersect_right_straddle(1) [OF s])
  show "\<exists>p. intersect_right bounds (x1, y1) (x2, y2) = Inr p"
    by (rule intersect_right_straddle(2) [OF s])
next
  assume s: "inside_bottom bounds (x1, y1) \<noteq> inside_bottom bounds (x2, y2)"
  show "num_sub y2 y1 \<noteq> Fin 0" by (rule intersect_bottom_straddle(1) [OF s])
  show "\<exists>p. intersect_bottom bounds (x1, y1) (x2, y2) = Inr p"
    by (rule intersect_bottom_straddle(2) [OF s])
next
  assume s: "inside_top bounds (x1, y1) \<noteq> inside_top bounds (x2, y2)"
  show "num_sub y2 y1 \<noteq> Fin 0" by (rule intersect_top_straddle(1) [OF s])
  show "\<exists>p. intersect_top bounds (x1, y1) (x2, y2) = Inr p"
    by (rule intersect_top_straddle(2) [OF s])
qed

text \<open>
  The left pass over the scenario square makes two calls; the first is evaluated here.
\<close>

theorem intersect_divisor_nonzero_witness:
  "intersect_calls (fin_ring [(-1, -1), (-1, 1), (1, 1), (1, -1)]) (inside_left demo_bounds) =
     [((Fin 1, Fin (-1)), (Fin (-1), Fin (-1))), ((Fin (-1), Fin 1), (Fin 1, Fin 1))] \<and>
   inside_left demo_bounds (Fin 1, Fin (-1)) \<noteq> inside_left demo_bounds (Fin (-1), Fin (-1)) \<and>
   num_sub (Fin (-1)) (Fin 1) \<noteq> Fin 0 \<and>
   intersect_left demo_bounds (Fin 1, Fin (-1)) (Fin (-1), Fin (-1)) = Inr (Fin 0, Fin (-1)) \<and>
   clipEdge (fin_ring [(-1, -1), (-1, 1), (1, 1), (1, -1)]) (inside_left demo_bounds)
     (intersect_left demo_bounds) = Inr (fin_ring [(0, -1), (0, 1), (1, 1), (1, -1)])"
proof -
  have calls: "intersect_calls (fin_ring [(-1, -1), (-1, 1), (1, 1), (1, -1)])
      (inside_left demo_bounds) =
     [((Fin 1, Fin (-1)), (Fin (-1), Fin (-1))), ((Fin (-1), Fin 1), (Fin 1, Fin 1))]"
    by (simp add: intersect_calls_def inside_left_def num_ge_def demo_bounds_def fin_ring_def)
  note w = intersect_divisor_nonzero [where polygon = "fin_ring [(-1, -1), (-1, 1), (1, 1), (1, -1)]"
      and inside = "inside_left demo_bounds" and bounds = demo_bounds
      and ?x1.0 = "Fin 1" and ?y1.0 = "Fin (-1)" and ?x2.0 = "Fin (-1)" and ?y2.0 = "Fin (-1)"]
  have str: "inside_left demo_bounds (Fin 1, Fin (-1)) \<noteq> inside_left demo_bounds (Fin (-1), Fin (-1))"
    using w [THEN conjunct1] by (simp add: calls)
  have "num_sub (Fin (-1)) (Fin 1) \<noteq> Fin 0"
    using w [THEN conjunct2, THEN conjunct2, THEN conjunct1] str by blast
  moreover have "intersect_left demo_bounds (Fin 1, Fin (-1)) (Fin (-1), Fin (-1)) = Inr (Fin 0, Fin (-1))"
    by (simp add: clip_eval demo_bounds_def)
  moreover have "clipEdge (fin_ring [(-1, -1), (-1, 1), (1, 1), (1, -1)]) (inside_left demo_bounds)
     (intersect_left demo_bounds) = Inr (fin_ring [(0, -1), (0, 1), (1, 1), (1, -1)])"
    by (simp add: clip_eval demo_bounds_def)
  ultimately show ?thesis using calls str by blast
qed

subsection \<open>C10: the attribute path\<close>

lemma replace_first_absent:
  "\<not> sublist pat s \<Longrightarrow> replace_first pat rep s = s"
proof (induction s)
  case Nil
  then show ?case by auto
next
  case (Cons c cs)
  then have "\<not> prefix pat (c # cs)" and "\<not> sublist pat cs"
    by (auto simp: sublist_Cons_right)
  then show ?case using Cons.IH by simp
qed

lemma replace_first_occurrence:
  assumes "pat \<noteq> []" and "\<not> sublist pat (pre @ butlast pat)"
  shows "replace_first pat rep (pre @ pat @ post) = pre @ rep @ post"
  using assms(2)
proof (induction pre)
  case Nil
  obtain c cs where "pat @ post = c # cs" using assms(1) by (cases pat) auto
  moreover have "prefix pat (pat @ post)" by simp
  ultimately show ?case by (metis append_Nil append_eq_conv_conj replace_first.simps(2))
next
  case (Cons c pre)
  have np: "\<not> prefix pat (c # pre @ pat @ post)"
  proof
    assume "prefix pat (c # pre @ pat @ post)"
    then have "prefix pat ((c # pre @ butlast pat) @ (last pat # post))"
      using assms(1) append_butlast_last_id [of pat] by (metis append.assoc append_Cons append_Nil)
    moreover have "length pat \<le> length (c # pre @ butlast pat)" by simp
    ultimately have "prefix pat (c # pre @ butlast pat)"
      by (metis prefix_length_prefix prefixI)
    then show False using Cons.prems by (auto simp: sublist_Cons_right)
  qed
  have "\<not> sublist pat (pre @ butlast pat)"
    using Cons.prems by (auto simp: sublist_Cons_right)
  then show ?case using Cons.IH np by simp
qed

text \<open>
  The outcome of \<^verbatim>\<open>loadCrownShapefile\<close> in terms of what \<^verbatim>\<open>fetch\<close> answers under the
  derived attribute path.
\<close>

lemma loadCrownShapefile_dbf_rejected:
  assumes "fetch env (replace_first ''.shp'' ''.dbf'' shapefilePath) = Inl e"
  shows "loadCrownShapefile env shapefilePath bounds = Inr []"
  using assms by (simp add: loadCrownShapefile_def try_block_def split: sum.splits)

lemma loadCrownShapefile_dbf_answered:
  assumes "fetch env shapefilePath = Inr shpResponse" and "ok shpResponse"
    and "arrayBuffer shpResponse = Inr shpBuffer"
    and "fetch env (replace_first ''.shp'' ''.dbf'' shapefilePath) = Inr dbfResponse"
  shows "loadCrownShapefile env shapefilePath bounds =
     (if \<not> ok dbfResponse then loadGeometryOnly env shpBuffer bounds
      else case arrayBuffer dbfResponse of
             Inl e \<Rightarrow> Inr []
           | Inr dbfBuffer \<Rightarrow>
               (case shapefile_read env shpBuffer (Some dbfBuffer) of
                  Inl e \<Rightarrow> Inr []
                | Inr features \<Rightarrow> forEach_feature bounds features []))"
proof (cases "ok dbfResponse")
  case False
  then show ?thesis using assms by (simp add: loadCrownShapefile_def try_block_def)
next
  case True
  show ?thesis
  proof (cases "arrayBuffer dbfResponse")
    case (Inl e)
    then show ?thesis using True assms by (simp add: loadCrownShapefile_def try_block_def)
  next
    case buf: (Inr dbfBuffer)
    show ?thesis
    proof (cases "shapefile_read env shpBuffer (Some dbfBuffer)")
      case (Inl e)
      then show ?thesis using True buf assms by (simp add: loadCrownShapefile_def try_block_def)
    next
      case (Inr features)
      obtain crowns where "forEach_feature bounds features [] = Inr crowns"
        using forEach_feature_total by blast
      then show ?thesis using True buf Inr assms
        by (simp add: loadCrownShapefile_def try_block_def)
    qed
  qed
qed

text \<open>
  C10. \<^verbatim>\<open>loadCrownShapefile\<close> derives the attribute path with
  \<^verbatim>\<open>shapefilePath.replace('.shp', '.dbf')\<close> and fetches the attribute resource under it.
  Where the path is \<open>pre @ ''.shp'' @ post\<close> and that occurrence of \<^verbatim>\<open>.shp\<close> is the first
  (none starts within \<open>pre\<close>), the derived path is \<open>pre @ ''.dbf'' @ post\<close>, later
  occurrences in \<open>post\<close> being kept, and the load is decided by what \<^verbatim>\<open>fetch\<close> answers
  under that path: a rejection gives \<open>[]\<close>, a response that is not ok gives the
  geometry-only result, and an ok response gives its buffer to the decoder as attribute
  buffer. Where the path does not contain \<^verbatim>\<open>.shp\<close>, the derived path is the geometry
  path, and when that resource is served, its buffer is given to the decoder as geometry
  buffer and as attribute buffer.
\<close>

theorem attribute_path:
  "(\<not> sublist ''.shp'' (pre @ ''.sh'') \<longrightarrow>
      replace_first ''.shp'' ''.dbf'' (pre @ ''.shp'' @ post) = pre @ ''.dbf'' @ post \<and>
      (fetch env (pre @ ''.dbf'' @ post) = Inl e \<longrightarrow>
         loadCrownShapefile env (pre @ ''.shp'' @ post) bounds = Inr []) \<and>
      (fetch env (pre @ ''.shp'' @ post) = Inr shpResponse \<and> ok shpResponse \<and>
       arrayBuffer shpResponse = Inr shpBuffer \<and>
       fetch env (pre @ ''.dbf'' @ post) = Inr dbfResponse \<longrightarrow>
         loadCrownShapefile env (pre @ ''.shp'' @ post) bounds =
           (if \<not> ok dbfResponse then loadGeometryOnly env shpBuffer bounds
            else case arrayBuffer dbfResponse of
                   Inl e \<Rightarrow> Inr []
                 | Inr dbfBuffer \<Rightarrow>
                     (case shapefile_read env shpBuffer (Some dbfBuffer) of
                        Inl e \<Rightarrow> Inr []
                      | Inr features \<Rightarrow> forEach_feature bounds features [])))) \<and>
   (\<not> sublist ''.shp'' shapefilePath \<longrightarrow>
      replace_first ''.shp'' ''.dbf'' shapefilePath = shapefilePath \<and>
      (fetch env shapefilePath = Inr response \<and> ok response \<and>
       arrayBuffer response = Inr buffer \<longrightarrow>
         loadCrownShapefile env shapefilePath bounds =
           (case shapefile_read env buffer (Some buffer) of
              Inl e \<Rightarrow> Inr []
            | Inr features \<Rightarrow> forEach_feature bounds features [])))"
proof (intro conjI impI)
  assume "\<not> sublist ''.shp'' (pre @ ''.sh'')"
  then show first: "replace_first ''.shp'' ''.dbf'' (pre @ ''.shp'' @ post) = pre @ ''.dbf'' @ post"
    using replace_first_occurrence [of "''.shp''" pre "''.dbf''" post] by simp
  {
    assume "fetch env (pre @ ''.dbf'' @ post) = Inl e"
    then show "loadCrownShapefile env (pre @ ''.shp'' @ post) bounds = Inr []"
      using loadCrownShapefile_dbf_rejected [of env "pre @ ''.shp'' @ post" e bounds]
      by (simp only: first)
  }
  {
    assume "fetch env (pre @ ''.shp'' @ post) = Inr shpResponse \<and> ok shpResponse \<and>
       arrayBuffer shpResponse = Inr shpBuffer \<and>
       fetch env (pre @ ''.dbf'' @ post) = Inr dbfResponse"
    then show "loadCrownShapefile env (pre @ ''.shp'' @ post) bounds =
           (if \<not> ok dbfResponse then loadGeometryOnly env shpBuffer bounds
            else case arrayBuffer dbfResponse of
                   Inl e \<Rightarrow> Inr []
                 | Inr dbfBuffer \<Rightarrow>
                     (case shapefile_read env shpBuffer (Some dbfBuffer) of
                        Inl e \<Rightarrow> Inr []
                      | Inr features \<Rightarrow> forEach_feature bounds features []))"
      using loadCrownShapefile_dbf_answered
        [of env "pre @ ''.shp'' @ post" shpResponse shpBuffer dbfResponse bounds]
      by (simp only: first)
  }
next
  assume "\<not> sublist ''.shp'' shapefilePath"
  then show same: "replace_first ''.shp'' ''.dbf'' shapefilePath = shapefilePath"
    by (rule replace_first_absent)
  assume h: "fetch env shapefilePath = Inr response \<and> ok response \<and> arrayBuffer response = Inr buffer"
  then have "fetch env (replace_first ''.shp'' ''.dbf'' shapefilePath) = Inr response"
    by (simp only: same)
  from loadCrownShapefile_dbf_answered [OF _ _ _ this, of response buffer bounds] h
  show "loadCrownShapefile env shapefilePath bounds =
           (case shapefile_read env buffer (Some buffer) of
              Inl e \<Rightarrow> Inr []
            | Inr features \<Rightarrow> forEach_feature bounds features [])"
    by simp
qed

text \<open>
  A path with two occurrences of \<^verbatim>\<open>.shp\<close>; the geometry path of the application, whose
  attribute path answers 404, so that the load takes the geometry-only fallback; and a
  path with no \<^verbatim>\<open>.shp\<close>, under which one resource is served.
\<close>

theorem attribute_path_witness:
  "replace_first ''.shp'' ''.dbf'' ''/crowns.shp.shp'' = ''/crowns.dbf.shp'' \<and>
   replace_first ''.shp'' ''.dbf'' ''/crown_outlines.shp'' = ''/crown_outlines.dbf'' \<and>
   fetch env_missing_dbf ''/crown_outlines.shp'' = Inr (response_ok [1]) \<and>
   fetch env_missing_dbf ''/crown_outlines.dbf'' = Inr response_not_found \<and>
   loadCrownShapefile env_missing_dbf ''/crown_outlines.shp'' demo_bounds =
     loadGeometryOnly env_missing_dbf [1] demo_bounds \<and>
   replace_first ''.shp'' ''.dbf'' ''/crown_outlines.zip'' = ''/crown_outlines.zip'' \<and>
   fetch env_single_resource ''/crown_outlines.zip'' = Inr (response_ok [9]) \<and>
   shapefile_read env_single_resource [9] (Some [9]) = Inr demo_features \<and>
   loadCrownShapefile env_single_resource ''/crown_outlines.zip'' demo_bounds =
     Inr [\<lparr>type_tag = ''Polygon'', coordinates = [fin_ring [(0, 0), (0, 1), (1, 1), (1, 0)]],
           properties = [''species'' \<mapsto> ''oak'']\<rparr>]"
proof -
  have 1: "\<not> sublist ''.shp'' (''/crowns'' @ ''.sh'')"
    by (simp add: sublist_Cons_right prefix_Cons)
  have "replace_first ''.shp'' ''.dbf'' ''/crowns.shp.shp'' = ''/crowns.dbf.shp''"
    using attribute_path [where pre = "''/crowns''" and post = "''.shp''", THEN conjunct1] 1
    by simp
  moreover
  have 3: "\<not> sublist ''.shp'' (''/crown_outlines'' @ ''.sh'')"
    by (simp add: sublist_Cons_right prefix_Cons)
  note a = attribute_path [where pre = "''/crown_outlines''" and post = "[]"
      and env = env_missing_dbf and shpResponse = "response_ok [1]" and shpBuffer = "[1]"
      and dbfResponse = response_not_found and bounds = demo_bounds, THEN conjunct1]
  have fs: "fetch env_missing_dbf ''/crown_outlines.shp'' = Inr (response_ok [1])"
    and fd: "fetch env_missing_dbf ''/crown_outlines.dbf'' = Inr response_not_found"
    by (simp_all add: env_missing_dbf_def)
  have oks: "ok (response_ok [1])" "arrayBuffer (response_ok [1]) = Inr [1]"
    "\<not> ok response_not_found"
    by (simp_all add: response_ok_def response_not_found_def)
  have "replace_first ''.shp'' ''.dbf'' ''/crown_outlines.shp'' = ''/crown_outlines.dbf''"
    using a 3 by simp
  moreover have "loadCrownShapefile env_missing_dbf ''/crown_outlines.shp'' demo_bounds =
     loadGeometryOnly env_missing_dbf [1] demo_bounds"
  proof -
    have "loadCrownShapefile env_missing_dbf (''/crown_outlines'' @ ''.shp'' @ []) demo_bounds =
       (if \<not> ok response_not_found then loadGeometryOnly env_missing_dbf [1] demo_bounds
        else case arrayBuffer response_not_found of
               Inl e \<Rightarrow> Inr []
             | Inr dbfBuffer \<Rightarrow>
                 (case shapefile_read env_missing_dbf [1] (Some dbfBuffer) of
                    Inl e \<Rightarrow> Inr []
                  | Inr features \<Rightarrow> forEach_feature demo_bounds features []))"
      using a 3 fs fd oks(1,2) by simp
    then show ?thesis using oks(3) by simp
  qed
  moreover
  note w = attribute_path [where shapefilePath = "''/crown_outlines.zip''"
      and env = env_single_resource and response = "response_ok [9]" and buffer = "[9]"
      and bounds = demo_bounds, THEN conjunct2]
  have 2: "\<not> sublist ''.shp'' ''/crown_outlines.zip''"
    by (simp add: sublist_Cons_right prefix_Cons)
  have "replace_first ''.shp'' ''.dbf'' ''/crown_outlines.zip'' = ''/crown_outlines.zip''"
    using w 2 by blast
  moreover have f: "fetch env_single_resource ''/crown_outlines.zip'' = Inr (response_ok [9])"
    and r: "shapefile_read env_single_resource [9] (Some [9]) = Inr demo_features"
    by (simp_all add: env_single_resource_def)
  moreover have "loadCrownShapefile env_single_resource ''/crown_outlines.zip'' demo_bounds =
     Inr [\<lparr>type_tag = ''Polygon'', coordinates = [fin_ring [(0, 0), (0, 1), (1, 1), (1, 0)]],
           properties = [''species'' \<mapsto> ''oak'']\<rparr>]"
  proof -
    have "ok (response_ok [9])" and "arrayBuffer (response_ok [9]) = Inr [9]"
      by (simp_all add: response_ok_def)
    then have "loadCrownShapefile env_single_resource ''/crown_outlines.zip'' demo_bounds =
      (case shapefile_read env_single_resource [9] (Some [9]) of
         Inl e \<Rightarrow> Inr []
       | Inr features \<Rightarrow> forEach_feature demo_bounds features [])"
      using w 2 f by blast
    then show ?thesis by (simp only: r sum.case demo_forEach)
  qed
  ultimately show ?thesis using fs fd by blast
qed

subsection \<open>C3: failures and the \<^verbatim>\<open>catch\<close> clause\<close>

text \<open>
  Every failure inside the \<^verbatim>\<open>try\<close> block is caught. The one way a rejection reaches the
  caller is the geometry-only fallback: both requests are answered, the geometry
  response is ok, the attribute response is not, the geometry buffer is read, and the
  decoder rejects it inside \<^verbatim>\<open>loadGeometryOnly\<close>, whose promise is returned without
  \<^verbatim>\<open>await\<close>.
\<close>

lemma loadGeometryOnly_rejected:
  "loadGeometryOnly env shpBuffer bounds = Inl e \<longleftrightarrow> shapefile_read env shpBuffer None = Inl e"
proof (cases "shapefile_read env shpBuffer None")
  case (Inl e')
  then show ?thesis by (simp add: loadGeometryOnly_def)
next
  case (Inr features)
  obtain crowns where "forEach_feature_geometry_only bounds features [] = Inr crowns"
    using forEach_feature_geometry_only_total by blast
  then show ?thesis using Inr by (simp add: loadGeometryOnly_def)
qed

lemma loadCrownShapefile_rejected:
  assumes "loadCrownShapefile env shapefilePath bounds = Inl e"
  shows "\<exists>shpResponse dbfResponse shpBuffer.
     fetch env shapefilePath = Inr shpResponse \<and> ok shpResponse \<and>
     fetch env (replace_first ''.shp'' ''.dbf'' shapefilePath) = Inr dbfResponse \<and>
     \<not> ok dbfResponse \<and> arrayBuffer shpResponse = Inr shpBuffer \<and>
     shapefile_read env shpBuffer None = Inl e"
proof -
  obtain promise where t: "try_block env shapefilePath bounds = ReturnedPromise promise"
    and p: "promise = Inl e"
    using assms by (auto simp: loadCrownShapefile_def split: try_result.splits)
  from t obtain shpResponse dbfResponse shpBuffer where
    "fetch env shapefilePath = Inr shpResponse" "ok shpResponse"
    "fetch env (replace_first ''.shp'' ''.dbf'' shapefilePath) = Inr dbfResponse"
    "\<not> ok dbfResponse" "arrayBuffer shpResponse = Inr shpBuffer"
    "promise = loadGeometryOnly env shpBuffer bounds"
    by (auto simp: try_block_def Let_def split: sum.splits if_splits)
  then show ?thesis using p loadGeometryOnly_rejected by metis
qed

lemma loadCrownShapefile_fetch_failed:
  "fetch env shapefilePath = Inl e \<Longrightarrow> loadCrownShapefile env shapefilePath bounds = Inr []"
  "fetch env shapefilePath = Inr shpResponse \<Longrightarrow> \<not> ok shpResponse \<Longrightarrow>
     loadCrownShapefile env shapefilePath bounds = Inr []"
  by (auto simp: loadCrownShapefile_def try_block_def Let_def split: sum.splits)

lemma demo_load_corrupt_dbf:
  "loadCrownShapefile env_corrupt_dbf ''/crown_outlines.shp'' demo_bounds = Inr []"
  by (simp add: loadCrownShapefile_def try_block_def env_corrupt_dbf_def response_ok_def)

lemma demo_load_unreachable_dbf:
  "loadCrownShapefile env_unreachable_dbf ''/crown_outlines.shp'' demo_bounds = Inr []"
  by (simp add: loadCrownShapefile_def try_block_def env_unreachable_dbf_def response_ok_def)

text \<open>
  C3 says that any exception raised during fetching, decoding or clipping makes
  \<^verbatim>\<open>loadCrownShapefile\<close> return an empty sequence and that nothing propagates to the
  caller. The model evaluated where the geometry is served, the attribute request is
  answered 404 and the decoder rejects the geometry buffer: the promise of
  \<^verbatim>\<open>loadCrownShapefile\<close> is rejected with the decoder's error.
\<close>

theorem fallback_rejection_propagates:
  "fetch env_corrupt_shp ''/crown_outlines.shp'' = Inr (response_ok [1]) \<and>
   fetch env_corrupt_shp ''/crown_outlines.dbf'' = Inr response_not_found \<and>
   shapefile_read env_corrupt_shp [1] None = Inl ParseError \<and>
   loadCrownShapefile env_corrupt_shp ''/crown_outlines.shp'' demo_bounds = Inl ParseError"
  by (simp add: loadCrownShapefile_def try_block_def env_corrupt_shp_def response_ok_def
      response_not_found_def loadGeometryOnly_def)

subsection \<open>C4: the geometry-only fallback\<close>

lemma forEach_feature_geometry_only_complete:
  assumes "forEach_feature_geometry_only bounds features acc = Inr crowns"
    and "f \<in> set features" and "geometry f = Some (Polygon rings)"
    and "clip_rings rings bounds = Inr clipped"
    and "filter (\<lambda>ring. length ring > 2) clipped \<noteq> []"
  shows "\<exists>c\<in>set crowns. coordinates c = filter (\<lambda>ring. length ring > 2) clipped \<and>
           properties c = Map.empty"
  using assms(1,2)
proof (induction features arbitrary: acc)
  case Nil
  then show ?case by simp
next
  case (Cons g rest)
  show ?case
  proof (cases "f = g")
    case True
    let ?c = "\<lparr>type_tag = ''Polygon'', coordinates = filter (\<lambda>ring. length ring > 2) clipped,
               properties = Map.empty\<rparr> :: 'a CrownPolygon"
    have "forEach_feature_geometry_only bounds rest (acc @ [?c]) = Inr crowns"
      using Cons.prems(1) True assms(3,4,5) by (simp add: Let_def)
    from forEach_feature_geometry_only_crowns [OF this]
    have "?c \<in> set crowns" by auto
    then show ?thesis by (intro bexI [of _ ?c]) simp_all
  next
    case False
    then have in_rest: "f \<in> set rest" using Cons.prems(2) by simp
    obtain acc' where "forEach_feature_geometry_only bounds rest acc' = Inr crowns"
      using Cons.prems(1)
      by (auto simp: Let_def split: option.splits geometry.splits sum.splits if_splits)
    from Cons.IH [OF this in_rest] show ?thesis .
  qed
qed

lemma loadCrownShapefile_fallback:
  assumes "fetch env shapefilePath = Inr shpResponse" and "ok shpResponse"
    and "arrayBuffer shpResponse = Inr shpBuffer"
    and "fetch env (replace_first ''.shp'' ''.dbf'' shapefilePath) = Inr dbfResponse"
    and "\<not> ok dbfResponse"
  shows "loadCrownShapefile env shapefilePath bounds = loadGeometryOnly env shpBuffer bounds"
  using assms by (simp add: loadCrownShapefile_def try_block_def)

text \<open>
  C4, as amended. Where the geometry request is answered with an ok response whose
  buffer is read and decodes without attributes, and the attribute request is answered
  with a failure status (a response that is not ok), \<^verbatim>\<open>loadCrownShapefile\<close> returns in
  geometry-only mode: every \<open>CrownPolygon\<close> it returns has the empty properties mapping
  and carries the rings of a polygon feature that survive clipping, and every polygon
  feature with a surviving ring is among them.
\<close>

theorem geometry_only_fallback:
  assumes "fetch env shapefilePath = Inr shpResponse" and "ok shpResponse"
    and "arrayBuffer shpResponse = Inr shpBuffer"
    and "fetch env (replace_first ''.shp'' ''.dbf'' shapefilePath) = Inr dbfResponse"
    and "\<not> ok dbfResponse"
    and "shapefile_read env shpBuffer None = Inr features"
  shows "\<exists>crowns. loadCrownShapefile env shapefilePath bounds = Inr crowns \<and>
    (\<forall>c\<in>set crowns. properties c = Map.empty \<and>
       (\<exists>f\<in>set features. \<exists>rings clipped. geometry f = Some (Polygon rings) \<and>
          map (\<lambda>ring. clipPolygonToBounds ring bounds) rings = map Inr clipped \<and>
          coordinates c = filter (\<lambda>ring. length ring > 2) clipped)) \<and>
    (\<forall>f\<in>set features. \<forall>rings clipped. geometry f = Some (Polygon rings) \<and>
       map (\<lambda>ring. clipPolygonToBounds ring bounds) rings = map Inr clipped \<and>
       filter (\<lambda>ring. length ring > 2) clipped \<noteq> [] \<longrightarrow>
       (\<exists>c\<in>set crowns. coordinates c = filter (\<lambda>ring. length ring > 2) clipped))"
proof -
  obtain crowns where fe: "forEach_feature_geometry_only bounds features [] = Inr crowns"
    using forEach_feature_geometry_only_total by blast
  have load: "loadCrownShapefile env shapefilePath bounds = Inr crowns"
    using loadCrownShapefile_fallback [OF assms(1-5)] assms(6) fe
    by (simp add: loadGeometryOnly_def)
  have sound: "\<forall>c\<in>set crowns. properties c = Map.empty \<and>
       (\<exists>f\<in>set features. \<exists>rings clipped. geometry f = Some (Polygon rings) \<and>
          map (\<lambda>ring. clipPolygonToBounds ring bounds) rings = map Inr clipped \<and>
          coordinates c = filter (\<lambda>ring. length ring > 2) clipped)"
    using forEach_feature_geometry_only_crowns [OF fe] by (fastforce simp: clip_rings_map)
  have complete: "\<forall>f\<in>set features. \<forall>rings clipped. geometry f = Some (Polygon rings) \<and>
       map (\<lambda>ring. clipPolygonToBounds ring bounds) rings = map Inr clipped \<and>
       filter (\<lambda>ring. length ring > 2) clipped \<noteq> [] \<longrightarrow>
       (\<exists>c\<in>set crowns. coordinates c = filter (\<lambda>ring. length ring > 2) clipped)"
    using forEach_feature_geometry_only_complete [OF fe] by (fastforce simp: clip_rings_map)
  show ?thesis using load sound complete by blast
qed

text \<open>The attribute resource answers 404: the oak polygon is returned without attributes.\<close>

theorem geometry_only_fallback_witness:
  "fetch env_missing_dbf ''/crown_outlines.shp'' = Inr (response_ok [1]) \<and>
   ok (response_ok [1]) \<and> arrayBuffer (response_ok [1]) = Inr [1] \<and>
   fetch env_missing_dbf (replace_first ''.shp'' ''.dbf'' ''/crown_outlines.shp'') =
     Inr response_not_found \<and>
   \<not> ok response_not_found \<and>
   shapefile_read env_missing_dbf [1] None = Inr demo_features \<and>
   loadCrownShapefile env_missing_dbf ''/crown_outlines.shp'' demo_bounds =
     Inr [\<lparr>type_tag = ''Polygon'', coordinates = [fin_ring [(0, 0), (0, 1), (1, 1), (1, 0)]],
           properties = Map.empty\<rparr>] \<and>
   list_all (\<lambda>c. properties c = Map.empty)
     [\<lparr>type_tag = ''Polygon'', coordinates = [fin_ring [(0, 0), (0, 1), (1, 1), (1, 0)]],
       properties = (Map.empty :: string \<rightharpoonup> string)\<rparr>]"
proof -
  have h: "fetch env_missing_dbf ''/crown_outlines.shp'' = Inr (response_ok [1])"
    "ok (response_ok [1])" "arrayBuffer (response_ok [1]) = Inr [1]"
    "fetch env_missing_dbf (replace_first ''.shp'' ''.dbf'' ''/crown_outlines.shp'') =
       Inr response_not_found"
    "\<not> ok response_not_found"
    "shapefile_read env_missing_dbf [1] None = Inr demo_features"
    by (simp_all add: env_missing_dbf_def response_ok_def response_not_found_def)
  from geometry_only_fallback [OF h, of demo_bounds]
  obtain crowns where "loadCrownShapefile env_missing_dbf ''/crown_outlines.shp'' demo_bounds = Inr crowns"
    and "\<forall>c\<in>set crowns. properties c = Map.empty"
    by blast
  then have "list_all (\<lambda>c. properties c = Map.empty)
     [\<lparr>type_tag = ''Polygon'', coordinates = [fin_ring [(0, 0), (0, 1), (1, 1), (1, 0)]],
       properties = (Map.empty :: string \<rightharpoonup> string)\<rparr>]"
    by (auto simp: demo_load_missing_dbf list_all_iff)
  then show ?thesis using h demo_load_missing_dbf by blast
qed

text \<open>
  The claim as stated fails where the attribute resource is served but unparseable:
  both requests are answered ok, the decoder rejects the attribute buffer, and the
  geometry alone decodes to a polygon that survives clipping (\<^verbatim>\<open>loadGeometryOnly\<close> would
  return it); the rejection is caught and \<^verbatim>\<open>loadCrownShapefile\<close> returns \<open>[]\<close>. The
  fallback is taken on \<^verbatim>\<open>!dbfResponse.ok\<close> only; a rejected attribute request is
  caught in the same way (lemma \<open>demo_load_unreachable_dbf\<close>).
\<close>

theorem geometry_only_fallback_counterexample:
  "fetch env_corrupt_dbf ''/crown_outlines.shp'' = Inr (response_ok [1]) \<and>
   fetch env_corrupt_dbf ''/crown_outlines.dbf'' = Inr (response_ok [2]) \<and>
   shapefile_read env_corrupt_dbf [1] (Some [2]) = Inl ParseError \<and>
   loadGeometryOnly env_corrupt_dbf [1] demo_bounds =
     Inr [\<lparr>type_tag = ''Polygon'', coordinates = [fin_ring [(0, 0), (0, 1), (1, 1), (1, 0)]],
           properties = Map.empty\<rparr>] \<and>
   loadCrownShapefile env_corrupt_dbf ''/crown_outlines.shp'' demo_bounds = Inr []"
proof -
  have "loadGeometryOnly env_corrupt_dbf [1] demo_bounds =
     Inr [\<lparr>type_tag = ''Polygon'', coordinates = [fin_ring [(0, 0), (0, 1), (1, 1), (1, 0)]],
           properties = Map.empty\<rparr>]"
    by (simp add: env_corrupt_dbf_def loadGeometryOnly_def demo_forEach_geometry_only)
  moreover have "fetch env_corrupt_dbf ''/crown_outlines.shp'' = Inr (response_ok [1])"
    "fetch env_corrupt_dbf ''/crown_outlines.dbf'' = Inr (response_ok [2])"
    "shapefile_read env_corrupt_dbf [1] (Some [2]) = Inl ParseError"
    by (simp_all add: env_corrupt_dbf_def)
  ultimately show ?thesis using demo_load_corrupt_dbf by blast
qed

end
